theory Spec2Isabelle
  imports Main "HOL-Library.Word"
begin

section \<open>JavaScript values used by \<^verbatim>\<open>server.js\<close>\<close>

text \<open>
  A JavaScript string is a sequence of 16-bit code units and \<^verbatim>\<open>.length\<close> counts code
  units, so a string is a list of 16-bit words. The upload buffer is a list of bytes.
  A thrown \<^verbatim>\<open>Error\<close> is modelled by its \<^verbatim>\<open>message\<close>, the only part the handler reads.
\<close>

type_synonym code_unit = "16 word"
type_synonym jsstring = "code_unit list"
type_synonym bytes = "8 word list"

datatype js_error = JsError (message: jsstring)

definition unit_of :: "char \<Rightarrow> code_unit" where
  "unit_of c = of_nat (of_char c)"

definition lit :: "string \<Rightarrow> jsstring" where
  \<comment> \<open>an ASCII string literal of the source, as code units\<close>
  "lit s = map unit_of s"

subsection \<open>\<^verbatim>\<open>String.prototype.trim\<close>\<close>

definition isWhiteSpace :: "code_unit \<Rightarrow> bool" where
  \<comment> \<open>ECMAScript WhiteSpace and LineTerminator code points, all in the basic plane\<close>
  "isWhiteSpace c \<longleftrightarrow>
     c = 0x0009 \<or> c = 0x000A \<or> c = 0x000B \<or> c = 0x000C \<or> c = 0x000D \<or> c = 0x0020 \<or>
     c = 0x00A0 \<or> c = 0x1680 \<or> (0x2000 \<le> c \<and> c \<le> 0x200A) \<or> c = 0x2028 \<or> c = 0x2029 \<or>
     c = 0x202F \<or> c = 0x205F \<or> c = 0x3000 \<or> c = 0xFEFF"

definition trim :: "jsstring \<Rightarrow> jsstring" where
  "trim s = rev (dropWhile isWhiteSpace (rev (dropWhile isWhiteSpace s)))"

subsection \<open>\<^verbatim>\<open>indexOf\<close>, \<^verbatim>\<open>lastIndexOf\<close> and \<^verbatim>\<open>slice\<close> with a one-unit needle\<close>

fun indexOf :: "jsstring \<Rightarrow> code_unit \<Rightarrow> int" where
  "indexOf [] c = -1"
| "indexOf (x # xs) c =
     (if x = c then 0 else (let i = indexOf xs c in if i = -1 then -1 else i + 1))"

definition lastIndexOf :: "jsstring \<Rightarrow> code_unit \<Rightarrow> int" where
  "lastIndexOf s c =
     (let i = indexOf (rev s) c in if i = -1 then -1 else int (length s) - 1 - i)"

definition slice :: "jsstring \<Rightarrow> int \<Rightarrow> int \<Rightarrow> jsstring" where
  \<comment> \<open>negative indices count from the end, both ends are clamped to the string\<close>
  "slice s start end' =
     (let len = int (length s);
          from = (if start < 0 then max (len + start) 0 else min start len);
          to = (if end' < 0 then max (len + end') 0 else min end' len)
      in take (nat (max (to - from) 0)) (drop (nat from) s))"

subsection \<open>JSON values\<close>

text \<open>
  The value \<^verbatim>\<open>JSON.parse\<close> returns. A number keeps its literal as written: its
  value as a double is not modelled (\<^verbatim>\<open>1e2\<close> and \<^verbatim>\<open>100\<close> stay apart). An object keeps
  its members in source order, where JavaScript lists integer-like keys first.
\<close>

datatype json =
    JNull
  | JBool bool
  | JNumber jsstring
  | JString jsstring
  | JArray "json list"
  | JObject "(jsstring \<times> json) list"

section \<open>A model of \<^verbatim>\<open>JSON.parse\<close>\<close>

text \<open>
  \<^verbatim>\<open>JSON.parse\<close> is a built-in of the language. The handler takes the parser as a
  capability, so the properties of the handler hold for any parser; the recursive-descent
  parser below follows the JSON grammar (ECMA-404) and serves the concrete replies.
  The recursion is bounded by fuel; \<open>jsonParse\<close> supplies enough of it
  (lemma \<open>jsonParse_fuel_suffices\<close>).
\<close>

definition isJsonWs :: "code_unit \<Rightarrow> bool" where
  "isJsonWs c \<longleftrightarrow> c = 0x20 \<or> c = 0x09 \<or> c = 0x0A \<or> c = 0x0D"

definition skipWs :: "jsstring \<Rightarrow> jsstring" where
  "skipWs s = dropWhile isJsonWs s"

definition isDigit :: "code_unit \<Rightarrow> bool" where
  "isDigit c \<longleftrightarrow> 0x30 \<le> c \<and> c \<le> 0x39"

definition isHex :: "code_unit \<Rightarrow> bool" where
  "isHex c \<longleftrightarrow> isDigit c \<or> (0x41 \<le> c \<and> c \<le> 0x46) \<or> (0x61 \<le> c \<and> c \<le> 0x66)"

definition hexVal :: "code_unit \<Rightarrow> code_unit" where
  "hexVal c = (if isDigit c then c - 0x30 else if c \<le> 0x46 then c - 0x41 + 10 else c - 0x61 + 10)"

text \<open>The code unit an escape sequence denotes, read after its backslash.\<close>

definition unescape :: "jsstring \<Rightarrow> (code_unit \<times> jsstring) option" where
  "unescape s =
     (case s of
        [] \<Rightarrow> None
      | e # r \<Rightarrow>
          if e = 0x22 \<or> e = 0x5C \<or> e = 0x2F then Some (e, r)
          else if e = 0x62 then Some (0x08, r)
          else if e = 0x66 then Some (0x0C, r)
          else if e = 0x6E then Some (0x0A, r)
          else if e = 0x72 then Some (0x0D, r)
          else if e = 0x74 then Some (0x09, r)
          else if e = 0x75 then
            (case r of
               a # b # c # d # r' \<Rightarrow>
                 if isHex a \<and> isHex b \<and> isHex c \<and> isHex d
                 then Some (hexVal a * 0x1000 + hexVal b * 0x100 + hexVal c * 0x10 + hexVal d, r')
                 else None
             | _ \<Rightarrow> None)
          else None)"

text \<open>The characters of a string literal after its opening quote, up to the closing quote.\<close>

function lexString :: "jsstring \<Rightarrow> jsstring \<Rightarrow> (jsstring \<times> jsstring) option" where
  "lexString acc [] = None"
| "lexString acc (c # r) =
     (if c = 0x22 then Some (rev acc, r)
      else if c < 0x20 then None
      else if c = 0x5C then
        (case unescape r of
           None \<Rightarrow> None
         | Some (u, r') \<Rightarrow> lexString (u # acc) r')
      else lexString (c # acc) r)"
  by pat_completeness auto
termination
  by (relation "measure (\<lambda>(acc, s). length s)")
     (auto simp: unescape_def split: list.splits if_splits)

definition lexDigits :: "jsstring \<Rightarrow> (jsstring \<times> jsstring) option" where
  "lexDigits s =
     (if takeWhile isDigit s = [] then None
      else Some (takeWhile isDigit s, dropWhile isDigit s))"

definition lexSign :: "jsstring \<Rightarrow> jsstring \<times> jsstring" where
  "lexSign s = (case s of [] \<Rightarrow> ([], s) | c # r \<Rightarrow> if c = 0x2D then ([c], r) else ([], s))"

definition lexInt :: "jsstring \<Rightarrow> (jsstring \<times> jsstring) option" where
  "lexInt s = (case s of [] \<Rightarrow> None | d # r \<Rightarrow> if d = 0x30 then Some ([d], r) else lexDigits s)"

definition lexFrac :: "jsstring \<Rightarrow> (jsstring \<times> jsstring) option" where
  "lexFrac s =
     (case s of
        [] \<Rightarrow> Some ([], s)
      | p # r \<Rightarrow>
          if p = 0x2E
          then (case lexDigits r of None \<Rightarrow> None | Some (ds, r') \<Rightarrow> Some (p # ds, r'))
          else Some ([], s))"

definition lexExpSign :: "jsstring \<Rightarrow> jsstring \<times> jsstring" where
  "lexExpSign s =
     (case s of [] \<Rightarrow> ([], s) | g # r \<Rightarrow> if g = 0x2B \<or> g = 0x2D then ([g], r) else ([], s))"

definition lexExp :: "jsstring \<Rightarrow> (jsstring \<times> jsstring) option" where
  "lexExp s =
     (case s of
        [] \<Rightarrow> Some ([], s)
      | x # r \<Rightarrow>
          if x = 0x65 \<or> x = 0x45
          then (case lexDigits (snd (lexExpSign r)) of
                  None \<Rightarrow> None
                | Some (ds, r') \<Rightarrow> Some (x # fst (lexExpSign r) @ ds, r'))
          else Some ([], s))"

definition lexNumber :: "jsstring \<Rightarrow> (jsstring \<times> jsstring) option" where
  "lexNumber s =
     (case lexInt (snd (lexSign s)) of
        None \<Rightarrow> None
      | Some (ip, s2) \<Rightarrow>
          (case lexFrac s2 of
             None \<Rightarrow> None
           | Some (fp, s3) \<Rightarrow>
               (case lexExp s3 of
                  None \<Rightarrow> None
                | Some (ep, s4) \<Rightarrow> Some (fst (lexSign s) @ ip @ fp @ ep, s4))))"

text \<open>
  A member whose key is already present replaces the value of that key, as the
  property definition of \<^verbatim>\<open>JSON.parse\<close> does.
\<close>

datatype presult = OutOfFuel | SyntaxErr | Parsed json jsstring

definition putMember :: "jsstring \<Rightarrow> json \<Rightarrow> (jsstring \<times> json) list \<Rightarrow> (jsstring \<times> json) list" where
  "putMember k v ms =
     (if k \<in> fst ` set ms then map (\<lambda>(k', v'). if k' = k then (k', v) else (k', v')) ms
      else ms @ [(k, v)])"

definition isPrefix :: "jsstring \<Rightarrow> jsstring \<Rightarrow> bool" where
  "isPrefix p s \<longleftrightarrow> take (length p) s = p"

fun parseValue :: "nat \<Rightarrow> jsstring \<Rightarrow> presult"
and parseElements :: "nat \<Rightarrow> json list \<Rightarrow> jsstring \<Rightarrow> presult"
and parseMembers :: "nat \<Rightarrow> (jsstring \<times> json) list \<Rightarrow> jsstring \<Rightarrow> presult" where
  "parseValue 0 s = OutOfFuel"
| "parseValue (Suc n) s =
     (case skipWs s of
        [] \<Rightarrow> SyntaxErr
      | c # r \<Rightarrow>
          if c = 0x7B then
            (case skipWs r of
               [] \<Rightarrow> SyntaxErr
             | c' # r' \<Rightarrow> if c' = 0x7D then Parsed (JObject []) r' else parseMembers n [] (c' # r'))
          else if c = 0x5B then
            (case skipWs r of
               [] \<Rightarrow> SyntaxErr
             | c' # r' \<Rightarrow> if c' = 0x5D then Parsed (JArray []) r' else parseElements n [] (c' # r'))
          else if c = 0x22 then
            (case lexString [] r of None \<Rightarrow> SyntaxErr | Some (str, r') \<Rightarrow> Parsed (JString str) r')
          else if isPrefix (lit ''true'') (c # r) then Parsed (JBool True) (drop 4 (c # r))
          else if isPrefix (lit ''false'') (c # r) then Parsed (JBool False) (drop 5 (c # r))
          else if isPrefix (lit ''null'') (c # r) then Parsed JNull (drop 4 (c # r))
          else (case lexNumber (c # r) of None \<Rightarrow> SyntaxErr | Some (num, r') \<Rightarrow> Parsed (JNumber num) r'))"
| "parseElements 0 acc s = OutOfFuel"
| "parseElements (Suc n) acc s =
     (case parseValue n s of
        Parsed v r \<Rightarrow>
          (case skipWs r of
             [] \<Rightarrow> SyntaxErr
           | c # r' \<Rightarrow>
               if c = 0x2C then parseElements n (acc @ [v]) r'
               else if c = 0x5D then Parsed (JArray (acc @ [v])) r'
               else SyntaxErr)
      | failed \<Rightarrow> failed)"
| "parseMembers 0 acc s = OutOfFuel"
| "parseMembers (Suc n) acc s =
     (case skipWs s of
        [] \<Rightarrow> SyntaxErr
      | q # r \<Rightarrow>
          if q = 0x22 then
            (case lexString [] r of
               None \<Rightarrow> SyntaxErr
             | Some (k, r1) \<Rightarrow>
                 (case skipWs r1 of
                    [] \<Rightarrow> SyntaxErr
                  | c # r2 \<Rightarrow>
                      if c = 0x3A then
                        (case parseValue n r2 of
                           Parsed v r3 \<Rightarrow>
                             (case skipWs r3 of
                                [] \<Rightarrow> SyntaxErr
                              | c' # r4 \<Rightarrow>
                                  if c' = 0x2C then parseMembers n (putMember k v acc) r4
                                  else if c' = 0x7D then Parsed (JObject (putMember k v acc)) r4
                                  else SyntaxErr)
                         | failed \<Rightarrow> failed)
                      else SyntaxErr))
          else SyntaxErr)"

text \<open>The whole text must be one value, with white space around it only.\<close>

definition jsonParse :: "jsstring \<Rightarrow> js_error + json" where
  "jsonParse s =
     (case parseValue (2 * length s + 2) s of
        Parsed v r \<Rightarrow> if skipWs r = [] then Inr v else Inl (JsError (lit ''Unexpected token in JSON''))
      | _ \<Rightarrow> Inl (JsError (lit ''Unexpected token in JSON'')))"

section \<open>The external capabilities\<close>

text \<open>
  \<^verbatim>\<open>pdfParse(buffer)\<close> resolves to an object whose \<^verbatim>\<open>text\<close> may be absent, or rejects;
  \<^verbatim>\<open>Tesseract.recognize(buffer, "eng", ...)\<close> resolves to \<^verbatim>\<open>result.data.text\<close> or rejects;
  \<^verbatim>\<open>model.generateContent(prompt)\<close> resolves to \<^verbatim>\<open>result.response.text()\<close> or rejects;
  \<^verbatim>\<open>JSON.parse\<close> returns a value or throws a \<^verbatim>\<open>SyntaxError\<close>.
  A rejection or a throw is \<open>Inl\<close>.
\<close>

record env =
  pdfParse :: "bytes \<Rightarrow> js_error + jsstring option"
  recognize :: "bytes \<Rightarrow> js_error + jsstring"
  generateContent :: "jsstring \<Rightarrow> js_error + jsstring"
  JSON_parse :: "jsstring \<Rightarrow> js_error + json"

text \<open>
  The calls made to the external services, in order. Every function that reaches a
  service returns the calls it made beside its result. Console output is not modelled.
\<close>

datatype call =
    PdfParseCall bytes
  | OcrCall bytes
  | GenerateCall jsstring

fun isOcrCall :: "call \<Rightarrow> bool" where
  "isOcrCall (OcrCall b) = True"
| "isOcrCall c = False"

fun isGenerateCall :: "call \<Rightarrow> bool" where
  "isGenerateCall (GenerateCall p) = True"
| "isGenerateCall c = False"

section \<open>The request and the response\<close>

text \<open>
  \<^verbatim>\<open>req.file\<close> is the object multer builds for the field \<^verbatim>\<open>resume\<close>, absent when the
  field is; \<^verbatim>\<open>req.body\<close> holds the text fields. A response is its status and the
  object given to \<^verbatim>\<open>res.json\<close>: one of the two shapes the handler writes.
\<close>

record upload_file =
  fieldname :: jsstring
  originalname :: jsstring
  encoding :: jsstring
  mimetype :: jsstring
  buffer :: bytes

record request =
  req_file :: "upload_file option"
  body_targetRole :: "jsstring option"
  body_others :: "(jsstring \<times> jsstring) list"

datatype body =
    ErrorBody (error: jsstring)
  | ReportBody (targetRole: jsstring) (fileName: jsstring) (extractedChars: nat) (analysis: json)

datatype response = Response (status: nat) (body: body)

section \<open>\<^verbatim>\<open>extractTextFromImage\<close>\<close>

text \<open>
  The function catches whatever \<^verbatim>\<open>Tesseract.recognize\<close> throws and returns the empty
  string. Its result type keeps the error side, which the \<^verbatim>\<open>try\<close> around the call
  in the handler is written for. Every rejection is taken to carry an \<^verbatim>\<open>Error\<close>: a
  rejection with \<^verbatim>\<open>null\<close> or \<^verbatim>\<open>undefined\<close>, on which reading \<^verbatim>\<open>error.message\<close> would
  itself throw, is outside \<open>js_error\<close>.
\<close>

definition extractTextFromImage :: "env \<Rightarrow> bytes \<Rightarrow> (js_error + jsstring) \<times> call list" where
  "extractTextFromImage e imageBuffer =
     (case recognize e imageBuffer of
        Inr text \<Rightarrow> (Inr text, [OcrCall imageBuffer])
      | Inl err \<Rightarrow> (Inr [], [OcrCall imageBuffer]))"

section \<open>\<^verbatim>\<open>askGeminiForJSON\<close>\<close>

definition jsonOnlyPrompt :: "jsstring \<Rightarrow> jsstring" where
  "jsonOnlyPrompt prompt =
     [0x0A] @ lit ''You are an API. Return ONLY valid JSON.'' @ [0x0A] @
     lit ''No markdown. No backticks. No extra explanation.'' @ [0x0A] @
     [0x0A] @ prompt @ [0x0A]"

definition askGeminiForJSON :: "env \<Rightarrow> jsstring \<Rightarrow> (js_error + json) \<times> call list" where
  "askGeminiForJSON e prompt =
     (case generateContent e (jsonOnlyPrompt prompt) of
        Inl err \<Rightarrow> (Inl err, [GenerateCall (jsonOnlyPrompt prompt)])
      | Inr raw \<Rightarrow>
          (case JSON_parse e raw of
             Inr v \<Rightarrow> (Inr v, [GenerateCall (jsonOnlyPrompt prompt)])
           | Inl _ \<Rightarrow>
               (let first = indexOf raw 0x7B;
                    last = lastIndexOf raw 0x7D
                in if first = -1 \<or> last = -1
                   then (Inl (JsError (lit ''Gemini did not return JSON.'')),
                         [GenerateCall (jsonOnlyPrompt prompt)])
                   else (JSON_parse e (slice raw first (last + 1)),
                         [GenerateCall (jsonOnlyPrompt prompt)]))))"

section \<open>The handler of \<^verbatim>\<open>POST /resume/upload\<close>\<close>

definition defaultRole :: jsstring where
  "defaultRole = lit ''Software Developer (Fresher)''"

definition msgNoFile :: jsstring where
  "msgNoFile = lit ''File not uploaded''"

definition msgNoText :: jsstring where
  "msgNoText =
     lit ''Could not extract text from PDF. Please upload a proper text-based resume.''"

definition msgOcrFailed :: "jsstring \<Rightarrow> jsstring" where
  "msgOcrFailed m = lit ''OCR extraction failed: '' @ m"

definition msgTooShort :: jsstring where
  "msgTooShort = lit ''Extracted text is too short. Please upload a valid resume PDF.''"

definition msgAiFailed :: jsstring where
  "msgAiFailed = lit ''AI analysis failed. Please try again.''"

text \<open>\<^verbatim>\<open>req.body.targetRole || "Software Developer (Fresher)"\<close>\<close>

definition requestedRole :: "request \<Rightarrow> jsstring" where
  "requestedRole req =
     (case body_targetRole req of
        None \<Rightarrow> defaultRole
      | Some r \<Rightarrow> if r = [] then defaultRole else r)"

text \<open>\<^verbatim>\<open>pdfData.text || ""\<close>\<close>

definition orEmpty :: "jsstring option \<Rightarrow> jsstring" where
  "orEmpty t = (case t of None \<Rightarrow> [] | Some s \<Rightarrow> if s = [] then [] else s)"

text \<open>
  Lines 91 to 99: \<^verbatim>\<open>resumeText\<close> after the first \<^verbatim>\<open>try\<close>. It stays empty when
  \<^verbatim>\<open>pdfParse\<close> rejects.
\<close>

definition pdfExtract :: "env \<Rightarrow> bytes \<Rightarrow> jsstring \<times> call list" where
  "pdfExtract e buf =
     (case pdfParse e buf of
        Inr pdfData \<Rightarrow> (trim (orEmpty pdfData), [PdfParseCall buf])
      | Inl pdfError \<Rightarrow> ([], [PdfParseCall buf]))"

definition dq :: jsstring where
  "dq = [0x22]"

definition buildPrompt :: "jsstring \<Rightarrow> jsstring \<Rightarrow> jsstring" where
  "buildPrompt role resumeText =
     [0x0A] @ lit ''Analyze this resume for the target role: '' @ dq @ role @ dq @ [0x0A] @
     [0x0A] @ lit ''Return JSON in EXACT shape:'' @ [0x0A] @
     lit ''{'' @ [0x0A] @
     lit ''  '' @ dq @ lit ''atsScore'' @ dq @ lit '': number (0-100),'' @ [0x0A] @
     lit ''  '' @ dq @ lit ''strengths'' @ dq @ lit '': ['' @ dq @ lit ''...'' @ dq @ lit ''],'' @ [0x0A] @
     lit ''  '' @ dq @ lit ''weakAreas'' @ dq @ lit '': ['' @ dq @ lit ''...'' @ dq @ lit ''],'' @ [0x0A] @
     lit ''  '' @ dq @ lit ''missingSkills'' @ dq @ lit '': ['' @ dq @ lit ''...'' @ dq @ lit ''],'' @ [0x0A] @
     lit ''  '' @ dq @ lit ''projectGaps'' @ dq @ lit '': ['' @ dq @ lit ''...'' @ dq @ lit ''],'' @ [0x0A] @
     lit ''  '' @ dq @ lit ''quickFixes'' @ dq @ lit '': ['' @ dq @ lit ''...'' @ dq @ lit ''],'' @ [0x0A] @
     lit ''  '' @ dq @ lit ''oneLineVerdict'' @ dq @ lit '': '' @ dq @ lit ''...'' @ dq @ [0x0A] @
     lit ''}'' @ [0x0A] @
     [0x0A] @ lit ''Rules:'' @ [0x0A] @
     lit ''- Be beginner-friendly.'' @ [0x0A] @
     lit ''- Be realistic.'' @ [0x0A] @
     lit ''- Mention projects/deployment/GitHub if missing.'' @ [0x0A] @
     [0x0A] @ lit ''Resume Text:'' @ [0x0A] @
     dq @ dq @ dq @ [0x0A] @
     resumeText @ [0x0A] @
     dq @ dq @ dq @ [0x0A]"

text \<open>
  The tail of the handler, from the length check on line 124: \<^verbatim>\<open>resumeText\<close> is the
  text either path has left in the variable, \<open>tr\<close> the calls made so far.
\<close>

definition analyseText ::
  "env \<Rightarrow> jsstring \<Rightarrow> upload_file \<Rightarrow> jsstring \<Rightarrow> call list \<Rightarrow> response \<times> call list" where
  "analyseText e role f resumeText tr =
     (if resumeText = [] \<or> length (trim resumeText) < 50
      then (Response 400 (ErrorBody msgTooShort), tr)
      else
        (case askGeminiForJSON e (buildPrompt role resumeText) of
           (Inr result, cs) \<Rightarrow>
             (Response 200 (ReportBody role (originalname f) (length resumeText) result),
              tr @ cs)
         | (Inl err, cs) \<Rightarrow>
             (Response 500 (ErrorBody msgAiFailed), tr @ cs)))"

definition uploadHandler :: "env \<Rightarrow> request \<Rightarrow> response \<times> call list" where
  "uploadHandler e req =
     (case req_file req of
        None \<Rightarrow> (Response 400 (ErrorBody msgNoFile), [])
      | Some f \<Rightarrow>
          (case pdfExtract e (buffer f) of
             (resumeText, tr1) \<Rightarrow>
               if resumeText = []
               then
                 (case extractTextFromImage e (buffer f) of
                    (Inl ocrError, cs) \<Rightarrow>
                      (Response 400 (ErrorBody (msgOcrFailed (message ocrError))), tr1 @ cs)
                  | (Inr ocrText, cs) \<Rightarrow>
                      if ocrText = [] \<or> length (trim ocrText) = 0
                      then (Response 400 (ErrorBody msgNoText), tr1 @ cs)
                      else analyseText e (requestedRole req) f ocrText (tr1 @ cs))
               else analyseText e (requestedRole req) f resumeText tr1))"

section \<open>Stub services and sample requests\<close>

definition stubEnv ::
  "(js_error + jsstring option) \<Rightarrow> (js_error + jsstring) \<Rightarrow> (js_error + jsstring) \<Rightarrow> env" where
  "stubEnv pdf ocr reply =
     \<lparr> pdfParse = (\<lambda>b. pdf), recognize = (\<lambda>b. ocr), generateContent = (\<lambda>p. reply),
       JSON_parse = jsonParse \<rparr>"

definition sampleFile :: upload_file where
  "sampleFile =
     \<lparr> fieldname = lit ''resume'', originalname = lit ''cv.pdf'', encoding = lit ''7bit'',
       mimetype = lit ''application/pdf'', buffer = [0x25, 0x50, 0x44, 0x46] \<rparr>"

definition sampleRequest :: request where
  "sampleRequest =
     \<lparr> req_file = Some sampleFile, body_targetRole = None, body_others = [] \<rparr>"

definition okReply :: jsstring where
  "okReply = lit ''{'' @ dq @ lit ''atsScore'' @ dq @ lit '':10}''"

definition okReport :: json where
  "okReport = JObject [(lit ''atsScore'', JNumber (lit ''10''))]"

text \<open>The reply of the test scenario: the object, wrapped in white space and prose.\<close>

definition wrappedReply :: jsstring where
  "wrappedReply = lit ''  {'' @ dq @ lit ''atsScore'' @ dq @ lit '':10}  extra text''"

section \<open>Properties\<close>

subsection \<open>The parser consumes its input and never runs out of fuel\<close>

lemma skipWs_length: "length (skipWs s) \<le> length s"
  by (simp add: skipWs_def length_dropWhile_le)

lemma skipWs_Cons_length: "skipWs s = c # r \<Longrightarrow> length r < length s"
  using skipWs_length [of s] by simp

lemma unescape_shorter: "unescape s = Some (u, r) \<Longrightarrow> length r < length s"
  unfolding unescape_def
  by (cases s) (auto split: if_splits list.splits)

lemma lexString_shorter: "lexString acc s = Some (str, r) \<Longrightarrow> length r < length s"
proof (induction acc s rule: lexString.induct)
  case (1 acc)
  then show ?case by simp
next
  case (2 acc c r')
  show ?case
  proof (cases "c = 0x22")
    case True
    with 2 show ?thesis by simp
  next
    case nq: False
    show ?thesis
    proof (cases "c = 0x5C")
      case False
      with nq 2 show ?thesis by (auto split: if_splits)
    next
      case True
      with nq 2 obtain u b where ub: "unescape r' = Some (u, b)"
        and ls: "lexString (u # acc) b = Some (str, r)"
        by (auto split: if_splits option.splits)
      from nq True ub have "\<not> c < 0x20" by simp
      from "2.IH"(1) [OF nq this True ub refl ls] have "length r < length b" .
      with unescape_shorter [OF ub] show ?thesis by simp
    qed
  qed
qed

lemma lexDigits_shorter: "lexDigits s = Some (ds, r) \<Longrightarrow> length r < length s"
proof -
  assume a: "lexDigits s = Some (ds, r)"
  then have ne: "takeWhile isDigit s \<noteq> []" and r: "r = dropWhile isDigit s"
    by (auto simp: lexDigits_def split: if_splits)
  have "length (takeWhile isDigit s) + length (dropWhile isDigit s) = length s"
    by (metis length_append takeWhile_dropWhile_id)
  with ne r show ?thesis by (cases "takeWhile isDigit s") auto
qed

lemma lexSign_length: "length (snd (lexSign s)) \<le> length s"
  by (simp add: lexSign_def split: list.splits)

lemma lexExpSign_length: "length (snd (lexExpSign s)) \<le> length s"
  by (simp add: lexExpSign_def split: list.splits)

lemma lexInt_shorter: "lexInt s = Some (ip, r) \<Longrightarrow> length r < length s"
  by (auto simp: lexInt_def split: list.splits if_splits dest: lexDigits_shorter)

lemma lexFrac_length: "lexFrac s = Some (fp, r) \<Longrightarrow> length r \<le> length s"
  by (auto simp: lexFrac_def split: list.splits if_splits option.splits dest: lexDigits_shorter)

lemma lexExp_length: "lexExp s = Some (ep, r) \<Longrightarrow> length r \<le> length s"
proof (cases s)
  case Nil
  assume "lexExp s = Some (ep, r)"
  with Nil show ?thesis by (simp add: lexExp_def)
next
  case (Cons x t)
  assume a: "lexExp s = Some (ep, r)"
  show ?thesis
  proof (cases "x = 0x65 \<or> x = 0x45")
    case False
    with a Cons show ?thesis by (auto simp: lexExp_def)
  next
    case True
    with a Cons obtain ds where "lexDigits (snd (lexExpSign t)) = Some (ds, r)"
      by (auto simp: lexExp_def split: option.splits)
    then have "length r < length (snd (lexExpSign t))" by (rule lexDigits_shorter)
    with lexExpSign_length [of t] Cons show ?thesis by simp
  qed
qed

lemma lexNumber_shorter: "lexNumber s = Some (num, r) \<Longrightarrow> length r < length s"
proof -
  assume a: "lexNumber s = Some (num, r)"
  then obtain ip s2 fp s3 ep where
    i: "lexInt (snd (lexSign s)) = Some (ip, s2)" and
    f: "lexFrac s2 = Some (fp, s3)" and
    e: "lexExp s3 = Some (ep, r)"
    by (auto simp: lexNumber_def split: option.splits)
  from lexInt_shorter [OF i] lexFrac_length [OF f] lexExp_length [OF e] lexSign_length [of s]
  show ?thesis by simp
qed

text \<open>Whatever a parser of the three returns as the rest is shorter than what it was given.\<close>

lemma parseValue_Suc_shorter:
  assumes E: "\<And>acc s v r. parseElements n acc s = Parsed v r \<Longrightarrow> length r < length s"
    and M: "\<And>acc s v r. parseMembers n acc s = Parsed v r \<Longrightarrow> length r < length s"
    and p: "parseValue (Suc n) s = Parsed v r"
  shows "length r < length s"
proof -
  from p obtain c t where sk: "skipWs s = c # t"
    by (cases "skipWs s") auto
  note len = skipWs_Cons_length [OF sk]
  consider (obj) "c = 0x7B" | (arr) "c \<noteq> 0x7B" "c = 0x5B"
    | (str) "c \<noteq> 0x7B" "c \<noteq> 0x5B" "c = 0x22"
    | (other) "c \<noteq> 0x7B" "c \<noteq> 0x5B" "c \<noteq> 0x22" by blast
  then show ?thesis
  proof cases
    case obj
    with p sk obtain c' t' where sk': "skipWs t = c' # t'"
      by (cases "skipWs t") auto
    note len' = skipWs_Cons_length [OF sk']
    show ?thesis
    proof (cases "c' = 0x7D")
      case True
      with p sk obj sk' have "r = t'" by simp
      with len len' show ?thesis by simp
    next
      case False
      with p sk obj sk' have "parseMembers n [] (c' # t') = Parsed v r" by simp
      from M [OF this] len len' show ?thesis by simp
    qed
  next
    case arr
    with p sk obtain c' t' where sk': "skipWs t = c' # t'"
      by (cases "skipWs t") auto
    note len' = skipWs_Cons_length [OF sk']
    show ?thesis
    proof (cases "c' = 0x5D")
      case True
      with p sk arr sk' have "r = t'" by simp
      with len len' show ?thesis by simp
    next
      case False
      with p sk arr sk' have "parseElements n [] (c' # t') = Parsed v r" by simp
      from E [OF this] len len' show ?thesis by simp
    qed
  next
    case str
    with p sk obtain k where "lexString [] t = Some (k, r)"
      by (auto split: option.splits)
    from lexString_shorter [OF this] len show ?thesis by simp
  next
    case other
    with p sk have
      "r = drop 4 (c # t) \<or> r = drop 5 (c # t) \<or> (\<exists>num. lexNumber (c # t) = Some (num, r))"
      by (auto split: if_splits option.splits)
    then show ?thesis
    proof (elim disjE exE)
      fix num assume "lexNumber (c # t) = Some (num, r)"
      from lexNumber_shorter [OF this] len show ?thesis by simp
    qed (use len in auto)
  qed
qed

lemma parseElements_Suc_shorter:
  assumes V: "\<And>s v r. parseValue n s = Parsed v r \<Longrightarrow> length r < length s"
    and E: "\<And>acc s v r. parseElements n acc s = Parsed v r \<Longrightarrow> length r < length s"
    and p: "parseElements (Suc n) acc s = Parsed v r"
  shows "length r < length s"
proof -
  from p obtain x t where pv: "parseValue n s = Parsed x t"
    by (cases "parseValue n s") auto
  note l1 = V [OF pv]
  from p pv obtain c t' where sk: "skipWs t = c # t'"
    by (cases "skipWs t") auto
  note l2 = skipWs_Cons_length [OF sk]
  show ?thesis
  proof (cases "c = 0x2C")
    case True
    with p pv sk have "parseElements n (acc @ [x]) t' = Parsed v r" by simp
    from E [OF this] l1 l2 show ?thesis by simp
  next
    case False
    with p pv sk have "r = t'" by (auto split: if_splits)
    with l1 l2 show ?thesis by simp
  qed
qed

lemma parseMembers_Suc_shorter:
  assumes V: "\<And>s v r. parseValue n s = Parsed v r \<Longrightarrow> length r < length s"
    and M: "\<And>acc s v r. parseMembers n acc s = Parsed v r \<Longrightarrow> length r < length s"
    and p: "parseMembers (Suc n) acc s = Parsed v r"
  shows "length r < length s"
proof -
  from p obtain q t where sk: "skipWs s = q # t"
    by (cases "skipWs s") auto
  note l0 = skipWs_Cons_length [OF sk]
  from p sk have q: "q = 0x22" by (auto split: if_splits)
  with p sk obtain k t1 where ls: "lexString [] t = Some (k, t1)"
    by (cases "lexString [] t") auto
  note l1 = lexString_shorter [OF ls]
  from p sk q ls obtain c t2 where sk1: "skipWs t1 = c # t2"
    by (cases "skipWs t1") auto
  note l2 = skipWs_Cons_length [OF sk1]
  from p sk q ls sk1 have c: "c = 0x3A" by (auto split: if_splits)
  with p sk q ls sk1 obtain x t3 where pv: "parseValue n t2 = Parsed x t3"
    by (cases "parseValue n t2") auto
  note l3 = V [OF pv]
  from p sk q ls sk1 c pv obtain c' t4 where sk3: "skipWs t3 = c' # t4"
    by (cases "skipWs t3") auto
  note l4 = skipWs_Cons_length [OF sk3]
  show ?thesis
  proof (cases "c' = 0x2C")
    case True
    with p sk q ls sk1 c pv sk3 have "parseMembers n (putMember k x acc) t4 = Parsed v r"
      by simp
    from M [OF this] l0 l1 l2 l3 l4 show ?thesis by simp
  next
    case False
    with p sk q ls sk1 c pv sk3 have "r = t4" by (auto split: if_splits)
    with l0 l1 l2 l3 l4 show ?thesis by simp
  qed
qed

lemma parse_shorter:
  "(\<forall>s v r. parseValue n s = Parsed v r \<longrightarrow> length r < length s) \<and>
   (\<forall>acc s v r. parseElements n acc s = Parsed v r \<longrightarrow> length r < length s) \<and>
   (\<forall>acc s v r. parseMembers n acc s = Parsed v r \<longrightarrow> length r < length s)"
proof (induction n)
  case 0
  show ?case by simp
next
  case (Suc n)
  then have V: "\<And>s v r. parseValue n s = Parsed v r \<Longrightarrow> length r < length s"
    and E: "\<And>acc s v r. parseElements n acc s = Parsed v r \<Longrightarrow> length r < length s"
    and M: "\<And>acc s v r. parseMembers n acc s = Parsed v r \<Longrightarrow> length r < length s"
    by blast+
  show ?case
  proof (intro conjI allI impI)
    fix s v r
    assume p: "parseValue (Suc n) s = Parsed v r"
    show "length r < length s"
      by (rule parseValue_Suc_shorter [of n, OF _ _ p]) (erule E M)+
  next
    fix acc s v r
    assume p: "parseElements (Suc n) acc s = Parsed v r"
    show "length r < length s"
      by (rule parseElements_Suc_shorter [of n, OF _ _ p]) (erule V E)+
  next
    fix acc s v r
    assume p: "parseMembers (Suc n) acc s = Parsed v r"
    show "length r < length s"
      by (rule parseMembers_Suc_shorter [of n, OF _ _ p]) (erule V M)+
  qed
qed

lemma parseValue_shorter: "parseValue n s = Parsed v r \<Longrightarrow> length r < length s"
  using parse_shorter [of n] by blast

text \<open>
  Fuel above twice the length of the input is never used up: a value costs one unit
  before its first code unit is read, an element or a member one more.
\<close>

lemma parseValue_Suc_fuel:
  assumes E: "\<And>acc s. 2 * length s + 1 < n \<Longrightarrow> parseElements n acc s \<noteq> OutOfFuel"
    and M: "\<And>acc s. 2 * length s + 1 < n \<Longrightarrow> parseMembers n acc s \<noteq> OutOfFuel"
    and n: "2 * length s < Suc n"
  shows "parseValue (Suc n) s \<noteq> OutOfFuel"
proof
  assume p: "parseValue (Suc n) s = OutOfFuel"
  then obtain c t where sk: "skipWs s = c # t"
    by (cases "skipWs s") auto
  note len = skipWs_Cons_length [OF sk]
  consider (obj) "c = 0x7B" | (arr) "c \<noteq> 0x7B" "c = 0x5B" | (other) "c \<noteq> 0x7B" "c \<noteq> 0x5B"
    by blast
  then show False
  proof cases
    case obj
    with p sk obtain c' t' where sk': "skipWs t = c' # t'"
      by (cases "skipWs t") auto
    note len' = skipWs_Cons_length [OF sk']
    from p sk obj sk' have "parseMembers n [] (c' # t') = OutOfFuel"
      by (auto split: if_splits)
    moreover from n len len' have "2 * length (c' # t') + 1 < n" by simp
    ultimately show False using M by blast
  next
    case arr
    with p sk obtain c' t' where sk': "skipWs t = c' # t'"
      by (cases "skipWs t") auto
    note len' = skipWs_Cons_length [OF sk']
    from p sk arr sk' have "parseElements n [] (c' # t') = OutOfFuel"
      by (auto split: if_splits)
    moreover from n len len' have "2 * length (c' # t') + 1 < n" by simp
    ultimately show False using E by blast
  next
    case other
    with p sk show False by (auto split: if_splits option.splits)
  qed
qed

lemma parseElements_Suc_fuel:
  assumes V: "\<And>s. 2 * length s < n \<Longrightarrow> parseValue n s \<noteq> OutOfFuel"
    and E: "\<And>acc s. 2 * length s + 1 < n \<Longrightarrow> parseElements n acc s \<noteq> OutOfFuel"
    and n: "2 * length s + 1 < Suc n"
  shows "parseElements (Suc n) acc s \<noteq> OutOfFuel"
proof
  assume p: "parseElements (Suc n) acc s = OutOfFuel"
  from n have "parseValue n s \<noteq> OutOfFuel" by (intro V) simp
  with p obtain x t where pv: "parseValue n s = Parsed x t"
    by (cases "parseValue n s") auto
  note l1 = parseValue_shorter [OF pv]
  from p pv obtain c t' where sk: "skipWs t = c # t'"
    by (cases "skipWs t") auto
  note l2 = skipWs_Cons_length [OF sk]
  from p pv sk have "parseElements n (acc @ [x]) t' = OutOfFuel"
    by (auto split: if_splits)
  moreover from n l1 l2 have "2 * length t' + 1 < n" by simp
  ultimately show False using E by blast
qed

lemma parseMembers_Suc_fuel:
  assumes V: "\<And>s. 2 * length s < n \<Longrightarrow> parseValue n s \<noteq> OutOfFuel"
    and M: "\<And>acc s. 2 * length s + 1 < n \<Longrightarrow> parseMembers n acc s \<noteq> OutOfFuel"
    and n: "2 * length s + 1 < Suc n"
  shows "parseMembers (Suc n) acc s \<noteq> OutOfFuel"
proof
  assume p: "parseMembers (Suc n) acc s = OutOfFuel"
  then obtain q t where sk: "skipWs s = q # t"
    by (cases "skipWs s") auto
  note l0 = skipWs_Cons_length [OF sk]
  from p sk have q: "q = 0x22" by (auto split: if_splits)
  with p sk obtain k t1 where ls: "lexString [] t = Some (k, t1)"
    by (cases "lexString [] t") auto
  note l1 = lexString_shorter [OF ls]
  from p sk q ls obtain c t2 where sk1: "skipWs t1 = c # t2"
    by (cases "skipWs t1") auto
  note l2 = skipWs_Cons_length [OF sk1]
  from p sk q ls sk1 have c: "c = 0x3A" by (auto split: if_splits)
  from n l0 l1 l2 have "parseValue n t2 \<noteq> OutOfFuel" by (intro V) simp
  with p sk q ls sk1 c obtain x t3 where pv: "parseValue n t2 = Parsed x t3"
    by (cases "parseValue n t2") auto
  note l3 = parseValue_shorter [OF pv]
  from p sk q ls sk1 c pv obtain c' t4 where sk3: "skipWs t3 = c' # t4"
    by (cases "skipWs t3") auto
  note l4 = skipWs_Cons_length [OF sk3]
  from p sk q ls sk1 c pv sk3 have "parseMembers n (putMember k x acc) t4 = OutOfFuel"
    by (auto split: if_splits)
  moreover from n l0 l1 l2 l3 l4 have "2 * length t4 + 1 < n" by simp
  ultimately show False using M by blast
qed

lemma parse_fuel:
  "(\<forall>s. 2 * length s < n \<longrightarrow> parseValue n s \<noteq> OutOfFuel) \<and>
   (\<forall>acc s. 2 * length s + 1 < n \<longrightarrow> parseElements n acc s \<noteq> OutOfFuel) \<and>
   (\<forall>acc s. 2 * length s + 1 < n \<longrightarrow> parseMembers n acc s \<noteq> OutOfFuel)"
proof (induction n)
  case 0
  show ?case by simp
next
  case (Suc n)
  then have V: "\<And>s. 2 * length s < n \<Longrightarrow> parseValue n s \<noteq> OutOfFuel"
    and E: "\<And>acc s. 2 * length s + 1 < n \<Longrightarrow> parseElements n acc s \<noteq> OutOfFuel"
    and M: "\<And>acc s. 2 * length s + 1 < n \<Longrightarrow> parseMembers n acc s \<noteq> OutOfFuel"
    by blast+
  show ?case
  proof (intro conjI allI impI)
    fix s :: jsstring
    assume n: "2 * length s < Suc n"
    show "parseValue (Suc n) s \<noteq> OutOfFuel"
      by (rule parseValue_Suc_fuel [of n, OF _ _ n]) (erule E M)+
  next
    fix acc and s :: jsstring
    assume n: "2 * length s + 1 < Suc n"
    show "parseElements (Suc n) acc s \<noteq> OutOfFuel"
      by (rule parseElements_Suc_fuel [of n, OF _ _ n]) (erule V E)+
  next
    fix acc and s :: jsstring
    assume n: "2 * length s + 1 < Suc n"
    show "parseMembers (Suc n) acc s \<noteq> OutOfFuel"
      by (rule parseMembers_Suc_fuel [of n, OF _ _ n]) (erule V M)+
  qed
qed

lemma jsonParse_fuel_suffices: "parseValue (2 * length s + 2) s \<noteq> OutOfFuel"
  using parse_fuel [of "2 * length s + 2"] by simp

subsection \<open>Trimming, and the paths of the handler\<close>

lemma trim_Nil: "trim [] = []"
  by (simp add: trim_def)

lemma length_trim_le: "length (trim s) \<le> length s"
proof -
  have "length (trim s) \<le> length (dropWhile isWhiteSpace s)"
    unfolding trim_def by (metis length_dropWhile_le length_rev)
  also have "\<dots> \<le> length s" by (rule length_dropWhile_le)
  finally show ?thesis .
qed

lemma trim_id:
  assumes "s \<noteq> []" "\<not> isWhiteSpace (hd s)" "\<not> isWhiteSpace (last s)"
  shows "trim s = s"
proof -
  from assms have "dropWhile isWhiteSpace s = s" by (cases s) auto
  moreover from assms have "dropWhile isWhiteSpace (rev s) = rev s"
    by (cases "rev s") (auto simp: hd_rev [symmetric] simp del: hd_rev)
  ultimately show ?thesis by (simp add: trim_def)
qed

lemma trim_replicate: "\<not> isWhiteSpace c \<Longrightarrow> trim (replicate n c) = replicate n c"
  by (cases n) (simp_all add: trim_Nil trim_id del: replicate_Suc)

lemma askGemini_calls: "snd (askGeminiForJSON e p) = [GenerateCall (jsonOnlyPrompt p)]"
  by (simp add: askGeminiForJSON_def Let_def split: sum.splits)

lemma extractTextFromImage_calls: "snd (extractTextFromImage e b) = [OcrCall b]"
  by (simp add: extractTextFromImage_def split: sum.splits)

lemma extractTextFromImage_never_throws: "\<exists>t. fst (extractTextFromImage e b) = Inr t"
  by (simp add: extractTextFromImage_def split: sum.splits)

lemma pdfExtract_calls: "snd (pdfExtract e b) = [PdfParseCall b]"
  by (simp add: pdfExtract_def split: sum.splits)

lemma analyseText_short:
  "resumeText = [] \<or> length (trim resumeText) < 50 \<Longrightarrow>
   analyseText e role f resumeText tr = (Response 400 (ErrorBody msgTooShort), tr)"
  by (simp add: analyseText_def)

lemma analyseText_long:
  "resumeText \<noteq> [] \<Longrightarrow> 50 \<le> length (trim resumeText) \<Longrightarrow>
   analyseText e role f resumeText tr =
     ((case fst (askGeminiForJSON e (buildPrompt role resumeText)) of
         Inr result \<Rightarrow> Response 200 (ReportBody role (originalname f) (length resumeText) result)
       | Inl err \<Rightarrow> Response 500 (ErrorBody msgAiFailed)),
      tr @ [GenerateCall (jsonOnlyPrompt (buildPrompt role resumeText))])"
  using askGemini_calls [of e "buildPrompt role resumeText"]
  by (cases "askGeminiForJSON e (buildPrompt role resumeText)")
     (auto simp: analyseText_def split: sum.splits)

lemma analyseText_ocr_free:
  "filter isOcrCall (snd (analyseText e role f t tr)) = filter isOcrCall tr"
proof (cases "t = [] \<or> length (trim t) < 50")
  case True
  then show ?thesis by (simp add: analyseText_short)
next
  case False
  then show ?thesis by (simp add: analyseText_long)
qed

lemma handler_structured:
  assumes "req_file req = Some f" "fst (pdfExtract e (buffer f)) \<noteq> []"
  shows "uploadHandler e req =
           analyseText e (requestedRole req) f (fst (pdfExtract e (buffer f)))
             [PdfParseCall (buffer f)]"
  using assms pdfExtract_calls [of e "buffer f"]
  by (cases "pdfExtract e (buffer f)") (simp add: uploadHandler_def)

lemma handler_ocr:
  assumes "req_file req = Some f" "fst (pdfExtract e (buffer f)) = []"
  shows "uploadHandler e req =
           (let ocrText = (case recognize e (buffer f) of Inr t \<Rightarrow> t | Inl err \<Rightarrow> [])
            in if ocrText = [] \<or> length (trim ocrText) = 0
               then (Response 400 (ErrorBody msgNoText), [PdfParseCall (buffer f), OcrCall (buffer f)])
               else analyseText e (requestedRole req) f ocrText
                      [PdfParseCall (buffer f), OcrCall (buffer f)])"
  using assms pdfExtract_calls [of e "buffer f"]
  by (cases "pdfExtract e (buffer f)")
     (auto simp: uploadHandler_def extractTextFromImage_def Let_def split: sum.splits)

text \<open>Every run of the handler ends in one of five ways.\<close>

lemma handler_cases:
  obtains
    (nofile) "req_file req = None"
      "uploadHandler e req = (Response 400 (ErrorBody msgNoFile), [])"
  | (notext) f where "req_file req = Some f" "fst (pdfExtract e (buffer f)) = []"
      "uploadHandler e req =
         (Response 400 (ErrorBody msgNoText), [PdfParseCall (buffer f), OcrCall (buffer f)])"
  | (tooshort) f rt tr where "req_file req = Some f" "length (trim rt) < 50"
      "filter isGenerateCall tr = []"
      "uploadHandler e req = (Response 400 (ErrorBody msgTooShort), tr)"
  | (aifail) f rt tr err where "req_file req = Some f" "rt \<noteq> []" "50 \<le> length (trim rt)"
      "filter isGenerateCall tr = []"
      "fst (askGeminiForJSON e (buildPrompt (requestedRole req) rt)) = Inl err"
      "uploadHandler e req =
         (Response 500 (ErrorBody msgAiFailed),
          tr @ [GenerateCall (jsonOnlyPrompt (buildPrompt (requestedRole req) rt))])"
  | (ok) f rt tr v where "req_file req = Some f" "rt \<noteq> []" "50 \<le> length (trim rt)"
      "filter isGenerateCall tr = []"
      "fst (askGeminiForJSON e (buildPrompt (requestedRole req) rt)) = Inr v"
      "uploadHandler e req =
         (Response 200 (ReportBody (requestedRole req) (originalname f) (length rt) v),
          tr @ [GenerateCall (jsonOnlyPrompt (buildPrompt (requestedRole req) rt))])"
proof (cases "req_file req")
  case None
  then have "uploadHandler e req = (Response 400 (ErrorBody msgNoFile), [])"
    by (simp add: uploadHandler_def)
  with None show ?thesis by (rule nofile)
next
  case (Some f)
  have tail: thesis
    if h: "uploadHandler e req = analyseText e (requestedRole req) f rt tr"
      and g: "filter isGenerateCall tr = []" for rt tr
  proof (cases "rt = [] \<or> length (trim rt) < 50")
    case True
    then have "length (trim rt) < 50" by (auto simp: trim_Nil)
    moreover from True h have "uploadHandler e req = (Response 400 (ErrorBody msgTooShort), tr)"
      by (simp add: analyseText_short)
    ultimately show ?thesis using Some g by (intro tooshort [of f rt tr])
  next
    case False
    then have ne: "rt \<noteq> []" and len: "50 \<le> length (trim rt)" by auto
    note eq = h [unfolded analyseText_long [OF ne len]]
    show ?thesis
    proof (cases "fst (askGeminiForJSON e (buildPrompt (requestedRole req) rt))")
      case (Inl err)
      with eq show ?thesis using Some ne len g by (intro aifail [of f rt tr err]) simp_all
    next
      case (Inr v)
      with eq show ?thesis using Some ne len g by (intro ok [of f rt tr v]) simp_all
    qed
  qed
  show ?thesis
  proof (cases "fst (pdfExtract e (buffer f)) = []")
    case False
    from handler_structured [OF Some False] show ?thesis by (rule tail) simp
  next
    case True
    let ?t = "case recognize e (buffer f) of Inr t \<Rightarrow> t | Inl err \<Rightarrow> []"
    note h = handler_ocr [OF Some True]
    show ?thesis
    proof (cases "?t = [] \<or> length (trim ?t) = 0")
      case blank: True
      with h have "uploadHandler e req =
         (Response 400 (ErrorBody msgNoText), [PdfParseCall (buffer f), OcrCall (buffer f)])"
        by (simp add: Let_def)
      with Some True show ?thesis by (rule notext)
    next
      case False
      with h have "uploadHandler e req = analyseText e (requestedRole req) f ?t
          [PdfParseCall (buffer f), OcrCall (buffer f)]"
        by (simp add: Let_def)
      then show ?thesis by (rule tail) simp
    qed
  qed
qed

subsection \<open>The stub services, evaluated\<close>

lemma stubEnv_simps:
  "pdfParse (stubEnv a b c) x = a"
  "recognize (stubEnv a b c) x = b"
  "generateContent (stubEnv a b c) p = c"
  "JSON_parse (stubEnv a b c) = jsonParse"
  by (simp_all add: stubEnv_def)

lemma jsonParse_okReply: "jsonParse okReply = Inr okReport"
  by code_simp

lemma askGemini_stub_ok:
  "askGeminiForJSON (stubEnv a b (Inr okReply)) p = (Inr okReport, [GenerateCall (jsonOnlyPrompt p)])"
  by (simp add: askGeminiForJSON_def stubEnv_simps jsonParse_okReply)

lemma sample_simps:
  "req_file sampleRequest = Some sampleFile"
  "body_targetRole sampleRequest = None"
  "buffer sampleFile = [0x25, 0x50, 0x44, 0x46]"
  "originalname sampleFile = lit ''cv.pdf''"
  by (simp_all add: sampleRequest_def sampleFile_def)

lemma notWhiteSpace_A: "\<not> isWhiteSpace 0x41"
  by (simp add: isWhiteSpace_def)

lemma trim_As: "trim (replicate n 0x41) = replicate n 0x41"
  by (simp add: trim_replicate notWhiteSpace_A)

lemma trim_blank: "trim [0x20, 0x0A] = []"
  by (simp add: trim_def isWhiteSpace_def)

section \<open>The claims\<close>

text \<open>
  Claim C1. When the structured extractor yields text that is not empty after trimming
  (in particular text of 50 trimmed characters or more), the handler never calls the OCR
  engine; when it yields text that is empty or white space only, the handler calls the
  OCR engine exactly once, on the uploaded buffer.
\<close>

theorem C1_ocr_only_when_structured_text_is_empty:
  assumes "req_file req = Some f" and "pdfParse e (buffer f) = Inr d"
  shows "(trim (orEmpty d) \<noteq> [] \<longrightarrow> filter isOcrCall (snd (uploadHandler e req)) = []) \<and>
         (50 \<le> length (trim (orEmpty d)) \<longrightarrow> filter isOcrCall (snd (uploadHandler e req)) = []) \<and>
         (trim (orEmpty d) = [] \<longrightarrow>
            filter isOcrCall (snd (uploadHandler e req)) = [OcrCall (buffer f)])"
proof -
  from assms(2) have px: "fst (pdfExtract e (buffer f)) = trim (orEmpty d)"
    by (simp add: pdfExtract_def)
  have full: "filter isOcrCall (snd (uploadHandler e req)) = []" if "trim (orEmpty d) \<noteq> []"
  proof -
    from that px have "fst (pdfExtract e (buffer f)) \<noteq> []" by simp
    from handler_structured [OF assms(1) this] show ?thesis
      by (simp add: analyseText_ocr_free)
  qed
  have empty: "filter isOcrCall (snd (uploadHandler e req)) = [OcrCall (buffer f)]"
    if "trim (orEmpty d) = []"
  proof -
    from that px have "fst (pdfExtract e (buffer f)) = []" by simp
    from handler_ocr [OF assms(1) this] show ?thesis
      by (simp add: Let_def analyseText_ocr_free)
  qed
  have "trim (orEmpty d) \<noteq> []" if "50 \<le> length (trim (orEmpty d))"
    using that by auto
  with full empty show ?thesis by blast
qed

theorem C1_witness:
  "req_file sampleRequest = Some sampleFile \<and>
   50 \<le> length (trim (orEmpty (Some (replicate 200 0x41)))) \<and>
   filter isOcrCall
     (snd (uploadHandler (stubEnv (Inr (Some (replicate 200 0x41))) (Inr []) (Inr okReply))
        sampleRequest)) = [] \<and>
   trim (orEmpty (Some [0x20, 0x0A])) = [] \<and>
   filter isOcrCall
     (snd (uploadHandler (stubEnv (Inr (Some [0x20, 0x0A])) (Inr []) (Inr okReply))
        sampleRequest)) = [OcrCall (buffer sampleFile)]"
  using
    C1_ocr_only_when_structured_text_is_empty
      [of sampleRequest sampleFile "stubEnv (Inr (Some (replicate 200 0x41))) (Inr []) (Inr okReply)"
          "Some (replicate 200 0x41)"]
    C1_ocr_only_when_structured_text_is_empty
      [of sampleRequest sampleFile "stubEnv (Inr (Some [0x20, 0x0A])) (Inr []) (Inr okReply)"
          "Some [0x20, 0x0A]"]
  by (simp add: sample_simps stubEnv_simps orEmpty_def trim_As trim_blank)

lemma handler_cong:
  assumes "map_option buffer (req_file r1) = map_option buffer (req_file r2)"
    and "map_option originalname (req_file r1) = map_option originalname (req_file r2)"
    and "requestedRole r1 = requestedRole r2"
  shows "uploadHandler e r1 = uploadHandler e r2"
proof (cases "req_file r1")
  case None
  with assms(1) have "req_file r2 = None" by simp
  with None show ?thesis by (simp add: uploadHandler_def)
next
  case (Some f1)
  with assms(1) obtain f2 where f2: "req_file r2 = Some f2" by (cases "req_file r2") auto
  from Some f2 assms have b: "buffer f1 = buffer f2" and n: "originalname f1 = originalname f2"
    by simp_all
  have "analyseText e role f1 t tr = analyseText e role f2 t tr" for role t tr
    by (simp add: analyseText_def n split: prod.splits sum.splits)
  with Some f2 b assms(3) show ?thesis
    by (simp add: uploadHandler_def split: prod.splits sum.splits)
qed

lemma requestedRole_falsy:
  "x = None \<or> x = Some [] \<Longrightarrow> requestedRole (req\<lparr>body_targetRole := x\<rparr>) = defaultRole"
  by (auto simp: requestedRole_def)

lemma handler_stub_structured:
  assumes "req_file req = Some f" "0 < n"
  shows "uploadHandler (stubEnv (Inr (Some (replicate n 0x41))) ocr (Inr okReply)) req =
    (if n < 50 then (Response 400 (ErrorBody msgTooShort), [PdfParseCall (buffer f)])
     else (Response 200 (ReportBody (requestedRole req) (originalname f) n okReport),
           [PdfParseCall (buffer f),
            GenerateCall (jsonOnlyPrompt (buildPrompt (requestedRole req) (replicate n 0x41)))]))"
  using assms
  by (simp add: uploadHandler_def pdfExtract_def analyseText_def stubEnv_simps orEmpty_def
        trim_As askGemini_stub_ok)

text \<open>
  The text handed to \<^verbatim>\<open>generateContent\<close>, written out: the two templates of lines 41 to 46
  and 133 to 156 with the role and the resume text in their places.
\<close>

lemma prompt_text:
  "jsonOnlyPrompt (buildPrompt role rt) =
     [0x0A] @ lit ''You are an API. Return ONLY valid JSON.'' @ [0x0A] @
     lit ''No markdown. No backticks. No extra explanation.'' @ [0x0A, 0x0A, 0x0A] @
     lit ''Analyze this resume for the target role: '' @ [0x22] @ role @ [0x22, 0x0A, 0x0A] @
     lit ''Return JSON in EXACT shape:'' @ [0x0A] @ lit ''{'' @ [0x0A] @
     lit ''  '' @ [0x22] @ lit ''atsScore'' @ [0x22] @ lit '': number (0-100),'' @ [0x0A] @
     lit ''  '' @ [0x22] @ lit ''strengths'' @ [0x22] @ lit '': ['' @ [0x22] @ lit ''...'' @ [0x22] @ lit ''],'' @ [0x0A] @
     lit ''  '' @ [0x22] @ lit ''weakAreas'' @ [0x22] @ lit '': ['' @ [0x22] @ lit ''...'' @ [0x22] @ lit ''],'' @ [0x0A] @
     lit ''  '' @ [0x22] @ lit ''missingSkills'' @ [0x22] @ lit '': ['' @ [0x22] @ lit ''...'' @ [0x22] @ lit ''],'' @ [0x0A] @
     lit ''  '' @ [0x22] @ lit ''projectGaps'' @ [0x22] @ lit '': ['' @ [0x22] @ lit ''...'' @ [0x22] @ lit ''],'' @ [0x0A] @
     lit ''  '' @ [0x22] @ lit ''quickFixes'' @ [0x22] @ lit '': ['' @ [0x22] @ lit ''...'' @ [0x22] @ lit ''],'' @ [0x0A] @
     lit ''  '' @ [0x22] @ lit ''oneLineVerdict'' @ [0x22] @ lit '': '' @ [0x22] @ lit ''...'' @ [0x22, 0x0A] @
     lit ''}'' @ [0x0A, 0x0A] @ lit ''Rules:'' @ [0x0A] @
     lit ''- Be beginner-friendly.'' @ [0x0A] @ lit ''- Be realistic.'' @ [0x0A] @
     lit ''- Mention projects/deployment/GitHub if missing.'' @ [0x0A, 0x0A] @
     lit ''Resume Text:'' @ [0x0A, 0x22, 0x22, 0x22, 0x0A] @
     rt @ [0x0A, 0x22, 0x22, 0x22, 0x0A, 0x0A]"
  by (simp add: jsonOnlyPrompt_def buildPrompt_def dq_def)

text \<open>
  Claim C9. The target role is defaulted by a falsiness test: a request whose
  \<^verbatim>\<open>targetRole\<close> field is the empty string is handled exactly as a request without the
  field, and both use \<^verbatim>\<open>"Software Developer (Fresher)"\<close> in the prompt sent to the AI
  service and in the \<^verbatim>\<open>targetRole\<close> field of a 200 response.
\<close>

theorem C9_targetRole_defaulted_when_falsy:
  assumes "x = None \<or> x = Some []"
  shows "uploadHandler e (req\<lparr>body_targetRole := x\<rparr>) =
           uploadHandler e (req\<lparr>body_targetRole := None\<rparr>) \<and>
         (status (fst (uploadHandler e (req\<lparr>body_targetRole := x\<rparr>))) = 200 \<longrightarrow>
            targetRole (body (fst (uploadHandler e (req\<lparr>body_targetRole := x\<rparr>)))) =
              lit ''Software Developer (Fresher)'') \<and>
         (\<forall>p. GenerateCall p \<in> set (snd (uploadHandler e (req\<lparr>body_targetRole := x\<rparr>))) \<longrightarrow>
            (\<exists>rt. p =
               [0x0A] @ lit ''You are an API. Return ONLY valid JSON.'' @ [0x0A] @
               lit ''No markdown. No backticks. No extra explanation.'' @ [0x0A, 0x0A, 0x0A] @
               lit ''Analyze this resume for the target role: '' @ [0x22] @ lit ''Software Developer (Fresher)'' @ [0x22, 0x0A, 0x0A] @
               lit ''Return JSON in EXACT shape:'' @ [0x0A] @ lit ''{'' @ [0x0A] @
               lit ''  '' @ [0x22] @ lit ''atsScore'' @ [0x22] @ lit '': number (0-100),'' @ [0x0A] @
               lit ''  '' @ [0x22] @ lit ''strengths'' @ [0x22] @ lit '': ['' @ [0x22] @ lit ''...'' @ [0x22] @ lit ''],'' @ [0x0A] @
               lit ''  '' @ [0x22] @ lit ''weakAreas'' @ [0x22] @ lit '': ['' @ [0x22] @ lit ''...'' @ [0x22] @ lit ''],'' @ [0x0A] @
               lit ''  '' @ [0x22] @ lit ''missingSkills'' @ [0x22] @ lit '': ['' @ [0x22] @ lit ''...'' @ [0x22] @ lit ''],'' @ [0x0A] @
               lit ''  '' @ [0x22] @ lit ''projectGaps'' @ [0x22] @ lit '': ['' @ [0x22] @ lit ''...'' @ [0x22] @ lit ''],'' @ [0x0A] @
               lit ''  '' @ [0x22] @ lit ''quickFixes'' @ [0x22] @ lit '': ['' @ [0x22] @ lit ''...'' @ [0x22] @ lit ''],'' @ [0x0A] @
               lit ''  '' @ [0x22] @ lit ''oneLineVerdict'' @ [0x22] @ lit '': '' @ [0x22] @ lit ''...'' @ [0x22, 0x0A] @
               lit ''}'' @ [0x0A, 0x0A] @ lit ''Rules:'' @ [0x0A] @
               lit ''- Be beginner-friendly.'' @ [0x0A] @ lit ''- Be realistic.'' @ [0x0A] @
               lit ''- Mention projects/deployment/GitHub if missing.'' @ [0x0A, 0x0A] @
               lit ''Resume Text:'' @ [0x0A, 0x22, 0x22, 0x22, 0x0A] @
               rt @ [0x0A, 0x22, 0x22, 0x22, 0x0A, 0x0A]))"
proof -
  let ?r = "req\<lparr>body_targetRole := x\<rparr>"
  have role: "requestedRole ?r = lit ''Software Developer (Fresher)''"
    using assms by (simp add: requestedRole_falsy defaultRole_def)
  have "requestedRole ?r = requestedRole (req\<lparr>body_targetRole := None\<rparr>)"
    using assms by (simp add: requestedRole_falsy)
  then have same: "uploadHandler e ?r = uploadHandler e (req\<lparr>body_targetRole := None\<rparr>)"
    by (intro handler_cong) simp_all
  have built: "\<exists>rt. p = jsonOnlyPrompt (buildPrompt (lit ''Software Developer (Fresher)'') rt)"
    if "GenerateCall p \<in> set (snd (uploadHandler e ?r))" for p
  proof -
    have "isGenerateCall (GenerateCall p)" by simp
    with that have f: "GenerateCall p \<in> set (filter isGenerateCall (snd (uploadHandler e ?r)))"
      by simp
    show ?thesis
      by (cases e ?r rule: handler_cases) (use f role in auto)
  qed
  have gen: "\<exists>rt. p =
               [0x0A] @ lit ''You are an API. Return ONLY valid JSON.'' @ [0x0A] @
               lit ''No markdown. No backticks. No extra explanation.'' @ [0x0A, 0x0A, 0x0A] @
               lit ''Analyze this resume for the target role: '' @ [0x22] @ lit ''Software Developer (Fresher)'' @ [0x22, 0x0A, 0x0A] @
               lit ''Return JSON in EXACT shape:'' @ [0x0A] @ lit ''{'' @ [0x0A] @
               lit ''  '' @ [0x22] @ lit ''atsScore'' @ [0x22] @ lit '': number (0-100),'' @ [0x0A] @
               lit ''  '' @ [0x22] @ lit ''strengths'' @ [0x22] @ lit '': ['' @ [0x22] @ lit ''...'' @ [0x22] @ lit ''],'' @ [0x0A] @
               lit ''  '' @ [0x22] @ lit ''weakAreas'' @ [0x22] @ lit '': ['' @ [0x22] @ lit ''...'' @ [0x22] @ lit ''],'' @ [0x0A] @
               lit ''  '' @ [0x22] @ lit ''missingSkills'' @ [0x22] @ lit '': ['' @ [0x22] @ lit ''...'' @ [0x22] @ lit ''],'' @ [0x0A] @
               lit ''  '' @ [0x22] @ lit ''projectGaps'' @ [0x22] @ lit '': ['' @ [0x22] @ lit ''...'' @ [0x22] @ lit ''],'' @ [0x0A] @
               lit ''  '' @ [0x22] @ lit ''quickFixes'' @ [0x22] @ lit '': ['' @ [0x22] @ lit ''...'' @ [0x22] @ lit ''],'' @ [0x0A] @
               lit ''  '' @ [0x22] @ lit ''oneLineVerdict'' @ [0x22] @ lit '': '' @ [0x22] @ lit ''...'' @ [0x22, 0x0A] @
               lit ''}'' @ [0x0A, 0x0A] @ lit ''Rules:'' @ [0x0A] @
               lit ''- Be beginner-friendly.'' @ [0x0A] @ lit ''- Be realistic.'' @ [0x0A] @
               lit ''- Mention projects/deployment/GitHub if missing.'' @ [0x0A, 0x0A] @
               lit ''Resume Text:'' @ [0x0A, 0x22, 0x22, 0x22, 0x0A] @
               rt @ [0x0A, 0x22, 0x22, 0x22, 0x0A, 0x0A]"
    if "GenerateCall p \<in> set (snd (uploadHandler e ?r))" for p
    using built [OF that] unfolding prompt_text .
  have ok: "targetRole (body (fst (uploadHandler e ?r))) = lit ''Software Developer (Fresher)''"
    if "status (fst (uploadHandler e ?r)) = 200"
    by (cases e ?r rule: handler_cases) (use that role in auto)
  from same gen ok show ?thesis by blast
qed

theorem C9_witness:
  "uploadHandler (stubEnv (Inr (Some (replicate 200 0x41))) (Inr []) (Inr okReply))
     (sampleRequest\<lparr>body_targetRole := Some []\<rparr>) =
   uploadHandler (stubEnv (Inr (Some (replicate 200 0x41))) (Inr []) (Inr okReply))
     (sampleRequest\<lparr>body_targetRole := None\<rparr>) \<and>
   status (fst (uploadHandler (stubEnv (Inr (Some (replicate 200 0x41))) (Inr []) (Inr okReply))
     (sampleRequest\<lparr>body_targetRole := Some []\<rparr>))) = 200 \<and>
   targetRole (body (fst (uploadHandler
     (stubEnv (Inr (Some (replicate 200 0x41))) (Inr []) (Inr okReply))
     (sampleRequest\<lparr>body_targetRole := Some []\<rparr>)))) = lit ''Software Developer (Fresher)'' \<and>
   (\<exists>rt. GenerateCall
      ([0x0A] @ lit ''You are an API. Return ONLY valid JSON.'' @ [0x0A] @
      lit ''No markdown. No backticks. No extra explanation.'' @ [0x0A, 0x0A, 0x0A] @
      lit ''Analyze this resume for the target role: '' @ [0x22] @ lit ''Software Developer (Fresher)'' @ [0x22, 0x0A, 0x0A] @
      lit ''Return JSON in EXACT shape:'' @ [0x0A] @ lit ''{'' @ [0x0A] @
      lit ''  '' @ [0x22] @ lit ''atsScore'' @ [0x22] @ lit '': number (0-100),'' @ [0x0A] @
      lit ''  '' @ [0x22] @ lit ''strengths'' @ [0x22] @ lit '': ['' @ [0x22] @ lit ''...'' @ [0x22] @ lit ''],'' @ [0x0A] @
      lit ''  '' @ [0x22] @ lit ''weakAreas'' @ [0x22] @ lit '': ['' @ [0x22] @ lit ''...'' @ [0x22] @ lit ''],'' @ [0x0A] @
      lit ''  '' @ [0x22] @ lit ''missingSkills'' @ [0x22] @ lit '': ['' @ [0x22] @ lit ''...'' @ [0x22] @ lit ''],'' @ [0x0A] @
      lit ''  '' @ [0x22] @ lit ''projectGaps'' @ [0x22] @ lit '': ['' @ [0x22] @ lit ''...'' @ [0x22] @ lit ''],'' @ [0x0A] @
      lit ''  '' @ [0x22] @ lit ''quickFixes'' @ [0x22] @ lit '': ['' @ [0x22] @ lit ''...'' @ [0x22] @ lit ''],'' @ [0x0A] @
      lit ''  '' @ [0x22] @ lit ''oneLineVerdict'' @ [0x22] @ lit '': '' @ [0x22] @ lit ''...'' @ [0x22, 0x0A] @
      lit ''}'' @ [0x0A, 0x0A] @ lit ''Rules:'' @ [0x0A] @
      lit ''- Be beginner-friendly.'' @ [0x0A] @ lit ''- Be realistic.'' @ [0x0A] @
      lit ''- Mention projects/deployment/GitHub if missing.'' @ [0x0A, 0x0A] @
      lit ''Resume Text:'' @ [0x0A, 0x22, 0x22, 0x22, 0x0A] @
      rt @ [0x0A, 0x22, 0x22, 0x22, 0x0A, 0x0A])
      \<in> set (snd (uploadHandler (stubEnv (Inr (Some (replicate 200 0x41))) (Inr []) (Inr okReply))
           (sampleRequest\<lparr>body_targetRole := Some []\<rparr>))))"
proof -
  let ?e = "stubEnv (Inr (Some (replicate 200 0x41))) (Inr []) (Inr okReply)"
  let ?r = "sampleRequest\<lparr>body_targetRole := Some []\<rparr>"
  let ?p = "jsonOnlyPrompt (buildPrompt (requestedRole ?r) (replicate 200 0x41))"
  have f: "req_file ?r = Some sampleFile" by (simp add: sample_simps)
  have h: "uploadHandler ?e ?r =
     (Response 200 (ReportBody (requestedRole ?r) (originalname sampleFile) 200 okReport),
      [PdfParseCall (buffer sampleFile), GenerateCall ?p])"
    by (simp add: handler_stub_structured [OF f])
  have s: "status (fst (uploadHandler ?e ?r)) = 200"
    and g: "GenerateCall ?p \<in> set (snd (uploadHandler ?e ?r))"
    by (simp_all add: h)
  note c = C9_targetRole_defaulted_when_falsy [OF disjI2 [OF refl], of ?e sampleRequest]
  note 1 = c [THEN conjunct1]
  from s have 2: "targetRole (body (fst (uploadHandler ?e ?r))) = lit ''Software Developer (Fresher)''"
    by (rule c [THEN conjunct2, THEN conjunct1, THEN mp])
  from c [THEN conjunct2, THEN conjunct2, THEN spec, THEN mp, OF g]
  obtain rt where eq: "?p =
      [0x0A] @ lit ''You are an API. Return ONLY valid JSON.'' @ [0x0A] @
      lit ''No markdown. No backticks. No extra explanation.'' @ [0x0A, 0x0A, 0x0A] @
      lit ''Analyze this resume for the target role: '' @ [0x22] @ lit ''Software Developer (Fresher)'' @ [0x22, 0x0A, 0x0A] @
      lit ''Return JSON in EXACT shape:'' @ [0x0A] @ lit ''{'' @ [0x0A] @
      lit ''  '' @ [0x22] @ lit ''atsScore'' @ [0x22] @ lit '': number (0-100),'' @ [0x0A] @
      lit ''  '' @ [0x22] @ lit ''strengths'' @ [0x22] @ lit '': ['' @ [0x22] @ lit ''...'' @ [0x22] @ lit ''],'' @ [0x0A] @
      lit ''  '' @ [0x22] @ lit ''weakAreas'' @ [0x22] @ lit '': ['' @ [0x22] @ lit ''...'' @ [0x22] @ lit ''],'' @ [0x0A] @
      lit ''  '' @ [0x22] @ lit ''missingSkills'' @ [0x22] @ lit '': ['' @ [0x22] @ lit ''...'' @ [0x22] @ lit ''],'' @ [0x0A] @
      lit ''  '' @ [0x22] @ lit ''projectGaps'' @ [0x22] @ lit '': ['' @ [0x22] @ lit ''...'' @ [0x22] @ lit ''],'' @ [0x0A] @
      lit ''  '' @ [0x22] @ lit ''quickFixes'' @ [0x22] @ lit '': ['' @ [0x22] @ lit ''...'' @ [0x22] @ lit ''],'' @ [0x0A] @
      lit ''  '' @ [0x22] @ lit ''oneLineVerdict'' @ [0x22] @ lit '': '' @ [0x22] @ lit ''...'' @ [0x22, 0x0A] @
      lit ''}'' @ [0x0A, 0x0A] @ lit ''Rules:'' @ [0x0A] @
      lit ''- Be beginner-friendly.'' @ [0x0A] @ lit ''- Be realistic.'' @ [0x0A] @
      lit ''- Mention projects/deployment/GitHub if missing.'' @ [0x0A, 0x0A] @
      lit ''Resume Text:'' @ [0x0A, 0x22, 0x22, 0x22, 0x0A] @
      rt @ [0x0A, 0x22, 0x22, 0x22, 0x0A, 0x0A]" ..
  have 3: "\<exists>rt. GenerateCall
      ([0x0A] @ lit ''You are an API. Return ONLY valid JSON.'' @ [0x0A] @
      lit ''No markdown. No backticks. No extra explanation.'' @ [0x0A, 0x0A, 0x0A] @
      lit ''Analyze this resume for the target role: '' @ [0x22] @ lit ''Software Developer (Fresher)'' @ [0x22, 0x0A, 0x0A] @
      lit ''Return JSON in EXACT shape:'' @ [0x0A] @ lit ''{'' @ [0x0A] @
      lit ''  '' @ [0x22] @ lit ''atsScore'' @ [0x22] @ lit '': number (0-100),'' @ [0x0A] @
      lit ''  '' @ [0x22] @ lit ''strengths'' @ [0x22] @ lit '': ['' @ [0x22] @ lit ''...'' @ [0x22] @ lit ''],'' @ [0x0A] @
      lit ''  '' @ [0x22] @ lit ''weakAreas'' @ [0x22] @ lit '': ['' @ [0x22] @ lit ''...'' @ [0x22] @ lit ''],'' @ [0x0A] @
      lit ''  '' @ [0x22] @ lit ''missingSkills'' @ [0x22] @ lit '': ['' @ [0x22] @ lit ''...'' @ [0x22] @ lit ''],'' @ [0x0A] @
      lit ''  '' @ [0x22] @ lit ''projectGaps'' @ [0x22] @ lit '': ['' @ [0x22] @ lit ''...'' @ [0x22] @ lit ''],'' @ [0x0A] @
      lit ''  '' @ [0x22] @ lit ''quickFixes'' @ [0x22] @ lit '': ['' @ [0x22] @ lit ''...'' @ [0x22] @ lit ''],'' @ [0x0A] @
      lit ''  '' @ [0x22] @ lit ''oneLineVerdict'' @ [0x22] @ lit '': '' @ [0x22] @ lit ''...'' @ [0x22, 0x0A] @
      lit ''}'' @ [0x0A, 0x0A] @ lit ''Rules:'' @ [0x0A] @
      lit ''- Be beginner-friendly.'' @ [0x0A] @ lit ''- Be realistic.'' @ [0x0A] @
      lit ''- Mention projects/deployment/GitHub if missing.'' @ [0x0A, 0x0A] @
      lit ''Resume Text:'' @ [0x0A, 0x22, 0x22, 0x22, 0x0A] @
      rt @ [0x0A, 0x22, 0x22, 0x22, 0x0A, 0x0A])
      \<in> set (snd (uploadHandler ?e ?r))"
    by (rule exI [of _ rt]) (rule g [unfolded eq])
  show ?thesis by (rule conjI [OF 1 conjI [OF s conjI [OF 2 3]]])
qed

text \<open>What the handler answers when the OCR engine raises, for any services and request.\<close>

lemma ocr_error_swallowed:
  assumes "req_file req = Some f" "fst (pdfExtract e (buffer f)) = []"
    "recognize e (buffer f) = Inl err"
  shows "uploadHandler e req =
     (Response 400 (ErrorBody msgNoText), [PdfParseCall (buffer f), OcrCall (buffer f)])"
  using handler_ocr [OF assms(1,2)] assms(3) by simp

text \<open>
  Claim C2 says that an error raised by the OCR engine during the fallback fails the
  request with status 400 and a message that carries the engine's message. The handler
  has the branch for it (\<open>msgOcrFailed\<close>), but \<^verbatim>\<open>extractTextFromImage\<close> has caught the
  error before and returned the empty string: with structured text absent and an engine
  that raises \<^verbatim>\<open>boom\<close>, the response is the one for no text found.
\<close>

theorem C2_ocr_error_reported_as_no_text:
  "uploadHandler (stubEnv (Inr None) (Inl (JsError (lit ''boom''))) (Inr okReply)) sampleRequest =
     (Response 400 (ErrorBody msgNoText),
      [PdfParseCall (buffer sampleFile), OcrCall (buffer sampleFile)]) \<and>
   msgNoText \<noteq> msgOcrFailed (lit ''boom'')"
proof -
  have "fst (pdfExtract (stubEnv (Inr None) (Inl (JsError (lit ''boom''))) (Inr okReply))
          (buffer sampleFile)) = []"
    by (simp add: pdfExtract_def stubEnv_simps orEmpty_def trim_Nil)
  from ocr_error_swallowed [OF sample_simps(1) this]
  have "uploadHandler (stubEnv (Inr None) (Inl (JsError (lit ''boom''))) (Inr okReply))
      sampleRequest =
     (Response 400 (ErrorBody msgNoText),
      [PdfParseCall (buffer sampleFile), OcrCall (buffer sampleFile)])"
    by (simp add: stubEnv_simps)
  moreover have "msgNoText \<noteq> msgOcrFailed (lit ''boom'')"
    by (simp add: msgNoText_def msgOcrFailed_def lit_def unit_of_def)
  ultimately show ?thesis by simp
qed

lemma rev_dropWhile_rev_prefix: "\<exists>w. xs = rev (dropWhile P (rev xs)) @ w"
  by (metis rev_append rev_rev_ident takeWhile_dropWhile_id)

lemma dropWhile_fixed: "xs = [] \<or> \<not> P (hd xs) \<Longrightarrow> dropWhile P xs = xs"
  by (cases xs) auto

lemma trim_head: "trim s = [] \<or> \<not> isWhiteSpace (hd (trim s))"
proof (cases "trim s = []")
  case False
  let ?u = "dropWhile isWhiteSpace s"
  obtain w where w: "?u = trim s @ w"
    using rev_dropWhile_rev_prefix [of ?u isWhiteSpace] by (auto simp: trim_def)
  with False have "hd (trim s) = hd ?u" by (metis hd_append2)
  moreover from w False have "?u \<noteq> []" by auto
  then have "\<not> isWhiteSpace (hd ?u)" by (rule hd_dropWhile)
  ultimately show ?thesis by simp
qed simp

lemma trim_trim: "trim (trim s) = trim s"
proof -
  have a: "dropWhile isWhiteSpace (trim s) = trim s"
    using trim_head [of s] by (rule dropWhile_fixed)
  have "rev (trim s) = dropWhile isWhiteSpace (rev (dropWhile isWhiteSpace s))"
    by (simp add: trim_def)
  then have b: "dropWhile isWhiteSpace (rev (trim s)) = rev (trim s)"
    by (simp add: dropWhile_idem)
  show ?thesis
    unfolding trim_def [of "trim s"] a b by simp
qed


lemma pdfExtract_resolved:
  "pdfParse e b = Inr d \<Longrightarrow> fst (pdfExtract e b) = trim (orEmpty d)"
  by (simp add: pdfExtract_def)

lemma status_analyseText_long:
  "rt \<noteq> [] \<Longrightarrow> 50 \<le> length (trim rt) \<Longrightarrow>
   status (fst (analyseText e role f rt tr)) = 200 \<or>
   status (fst (analyseText e role f rt tr)) = 500"
  by (simp add: analyseText_long split: sum.splits)

text \<open>
  Claim C4. Extracted text of exactly 49 trimmed characters is refused with status 400 and
  the too-short message, before any call to the AI service; text of exactly 50 trimmed
  characters goes on to the AI service. This holds for text of the structured extractor
  and for text of the OCR engine alike.
\<close>

theorem C4_length_threshold:
  assumes "req_file req = Some f"
  shows
    "(pdfParse e (buffer f) = Inr d \<and> length (trim (orEmpty d)) = 49 \<longrightarrow>
        uploadHandler e req =
          (Response 400 (ErrorBody msgTooShort), [PdfParseCall (buffer f)])) \<and>
     (pdfParse e (buffer f) = Inr d \<and> length (trim (orEmpty d)) = 50 \<longrightarrow>
        snd (uploadHandler e req) =
          [PdfParseCall (buffer f),
           GenerateCall (jsonOnlyPrompt (buildPrompt (requestedRole req) (trim (orEmpty d))))] \<and>
        (status (fst (uploadHandler e req)) = 200 \<or> status (fst (uploadHandler e req)) = 500)) \<and>
     (fst (pdfExtract e (buffer f)) = [] \<and> recognize e (buffer f) = Inr t \<and>
      length (trim t) = 49 \<longrightarrow>
        uploadHandler e req =
          (Response 400 (ErrorBody msgTooShort),
           [PdfParseCall (buffer f), OcrCall (buffer f)])) \<and>
     (fst (pdfExtract e (buffer f)) = [] \<and> recognize e (buffer f) = Inr t \<and>
      length (trim t) = 50 \<longrightarrow>
        snd (uploadHandler e req) =
          [PdfParseCall (buffer f), OcrCall (buffer f),
           GenerateCall (jsonOnlyPrompt (buildPrompt (requestedRole req) t))] \<and>
        (status (fst (uploadHandler e req)) = 200 \<or> status (fst (uploadHandler e req)) = 500))"
proof (intro conjI impI; elim conjE)
  assume p: "pdfParse e (buffer f) = Inr d" and l: "length (trim (orEmpty d)) = 49"
  from l have "fst (pdfExtract e (buffer f)) \<noteq> []"
    by (auto simp: pdfExtract_resolved [OF p])
  from handler_structured [OF assms this] l
  show "uploadHandler e req = (Response 400 (ErrorBody msgTooShort), [PdfParseCall (buffer f)])"
    by (simp add: pdfExtract_resolved [OF p] analyseText_short trim_trim)
next
  assume p: "pdfParse e (buffer f) = Inr d" and l: "length (trim (orEmpty d)) = 50"
  from l have ne: "fst (pdfExtract e (buffer f)) \<noteq> []"
    by (auto simp: pdfExtract_resolved [OF p])
  from l have ne': "trim (orEmpty d) \<noteq> []" and len: "50 \<le> length (trim (trim (orEmpty d)))"
    by (auto simp: trim_trim)
  note h = handler_structured [OF assms ne, unfolded pdfExtract_resolved [OF p]]
  from h show "snd (uploadHandler e req) =
      [PdfParseCall (buffer f),
       GenerateCall (jsonOnlyPrompt (buildPrompt (requestedRole req) (trim (orEmpty d))))]"
    by (simp add: analyseText_long [OF ne' len])
  from h status_analyseText_long [OF ne' len]
  show "status (fst (uploadHandler e req)) = 200 \<or> status (fst (uploadHandler e req)) = 500"
    by simp
next
  assume x: "fst (pdfExtract e (buffer f)) = []" and r: "recognize e (buffer f) = Inr t"
    and l: "length (trim t) = 49"
  from l have "t \<noteq> []" and "trim t \<noteq> []" by (auto simp: trim_Nil)
  with handler_ocr [OF assms x] r l
  show "uploadHandler e req =
      (Response 400 (ErrorBody msgTooShort), [PdfParseCall (buffer f), OcrCall (buffer f)])"
    by (simp add: analyseText_short)
next
  assume x: "fst (pdfExtract e (buffer f)) = []" and r: "recognize e (buffer f) = Inr t"
    and l: "length (trim t) = 50"
  from l have ne: "t \<noteq> []" and len: "50 \<le> length (trim t)" and "trim t \<noteq> []"
    by (auto simp: trim_Nil)
  with handler_ocr [OF assms x] r l
  have h: "uploadHandler e req =
      analyseText e (requestedRole req) f t [PdfParseCall (buffer f), OcrCall (buffer f)]"
    by simp
  from h show "snd (uploadHandler e req) =
      [PdfParseCall (buffer f), OcrCall (buffer f),
       GenerateCall (jsonOnlyPrompt (buildPrompt (requestedRole req) t))]"
    by (simp add: analyseText_long [OF ne len])
  from h status_analyseText_long [OF ne len]
  show "status (fst (uploadHandler e req)) = 200 \<or> status (fst (uploadHandler e req)) = 500"
    by simp
qed

theorem C4_witness:
  "length (trim (orEmpty (Some (replicate 49 0x41)))) = 49 \<and>
   uploadHandler (stubEnv (Inr (Some (replicate 49 0x41))) (Inr []) (Inr okReply)) sampleRequest =
     (Response 400 (ErrorBody msgTooShort), [PdfParseCall (buffer sampleFile)]) \<and>
   length (trim (orEmpty (Some (replicate 50 0x41)))) = 50 \<and>
   snd (uploadHandler (stubEnv (Inr (Some (replicate 50 0x41))) (Inr []) (Inr okReply))
          sampleRequest) =
     [PdfParseCall (buffer sampleFile),
      GenerateCall (jsonOnlyPrompt (buildPrompt (requestedRole sampleRequest)
        (trim (orEmpty (Some (replicate 50 0x41))))))] \<and>
   length (trim (replicate 49 0x41)) = 49 \<and>
   uploadHandler (stubEnv (Inr None) (Inr (replicate 49 0x41)) (Inr okReply)) sampleRequest =
     (Response 400 (ErrorBody msgTooShort),
      [PdfParseCall (buffer sampleFile), OcrCall (buffer sampleFile)]) \<and>
   length (trim (replicate 50 0x41)) = 50 \<and>
   snd (uploadHandler (stubEnv (Inr None) (Inr (replicate 50 0x41)) (Inr okReply))
          sampleRequest) =
     [PdfParseCall (buffer sampleFile), OcrCall (buffer sampleFile),
      GenerateCall (jsonOnlyPrompt (buildPrompt (requestedRole sampleRequest)
        (replicate 50 0x41)))]"
  using
    C4_length_threshold [OF sample_simps(1),
      of "stubEnv (Inr (Some (replicate 49 0x41))) (Inr []) (Inr okReply)"
         "Some (replicate 49 0x41)" "[]"]
    C4_length_threshold [OF sample_simps(1),
      of "stubEnv (Inr (Some (replicate 50 0x41))) (Inr []) (Inr okReply)"
         "Some (replicate 50 0x41)" "[]"]
    C4_length_threshold [OF sample_simps(1),
      of "stubEnv (Inr None) (Inr (replicate 49 0x41)) (Inr okReply)"
         None "replicate 49 0x41"]
    C4_length_threshold [OF sample_simps(1),
      of "stubEnv (Inr None) (Inr (replicate 50 0x41)) (Inr okReply)"
         None "replicate 50 0x41"]
  by (simp add: stubEnv_simps orEmpty_def trim_As trim_Nil pdfExtract_def)

lemma jsonOnlyPrompt_inj: "jsonOnlyPrompt p = jsonOnlyPrompt q \<Longrightarrow> p = q"
  by (simp add: jsonOnlyPrompt_def)

text \<open>
  Claim C5. Whenever the handler calls the AI service, the text in the prompt is not
  empty and has at least 50 characters after trimming; so every 200 response was
  produced from such a text and its \<^verbatim>\<open>extractedChars\<close> is at least 50.
\<close>

theorem C5_text_sent_for_analysis_is_long_enough:
  "(\<forall>p. GenerateCall p \<in> set (snd (uploadHandler e req)) \<longrightarrow>
      (\<exists>rt. p = jsonOnlyPrompt (buildPrompt (requestedRole req) rt) \<and>
            rt \<noteq> [] \<and> 50 \<le> length (trim rt))) \<and>
   (status (fst (uploadHandler e req)) = 200 \<longrightarrow>
      (\<exists>f rt v. req_file req = Some f \<and>
                fst (uploadHandler e req) =
                  Response 200 (ReportBody (requestedRole req) (originalname f) (length rt) v) \<and>
                GenerateCall (jsonOnlyPrompt (buildPrompt (requestedRole req) rt))
                  \<in> set (snd (uploadHandler e req)) \<and>
                rt \<noteq> [] \<and> 50 \<le> length (trim rt)) \<and>
      50 \<le> extractedChars (body (fst (uploadHandler e req))))"
proof (intro conjI allI impI)
  fix p
  assume "GenerateCall p \<in> set (snd (uploadHandler e req))"
  then have f: "GenerateCall p \<in> set (filter isGenerateCall (snd (uploadHandler e req)))"
    by simp
  show "\<exists>rt. p = jsonOnlyPrompt (buildPrompt (requestedRole req) rt) \<and>
            rt \<noteq> [] \<and> 50 \<le> length (trim rt)"
    by (cases e req rule: handler_cases) (use f in auto)
next
  assume s: "status (fst (uploadHandler e req)) = 200"
  then show "\<exists>f rt v. req_file req = Some f \<and>
                fst (uploadHandler e req) =
                  Response 200 (ReportBody (requestedRole req) (originalname f) (length rt) v) \<and>
                GenerateCall (jsonOnlyPrompt (buildPrompt (requestedRole req) rt))
                  \<in> set (snd (uploadHandler e req)) \<and>
                rt \<noteq> [] \<and> 50 \<le> length (trim rt)"
  proof (cases e req rule: handler_cases)
    case (ok f rt tr v)
    then show ?thesis by (intro exI [of _ f] exI [of _ rt] exI [of _ v]) simp
  qed auto
  from s show "50 \<le> extractedChars (body (fst (uploadHandler e req)))"
  proof (cases e req rule: handler_cases)
    case (ok f rt tr v)
    from ok(3) length_trim_le [of rt] have "50 \<le> length rt" by simp
    with ok(6) show ?thesis by simp
  qed auto
qed

theorem C5_witness:
  "status (fst (uploadHandler (stubEnv (Inr (Some (replicate 200 0x41))) (Inr []) (Inr okReply))
      sampleRequest)) = 200 \<and>
   50 \<le> extractedChars (body (fst (uploadHandler
      (stubEnv (Inr (Some (replicate 200 0x41))) (Inr []) (Inr okReply)) sampleRequest))) \<and>
   GenerateCall (jsonOnlyPrompt (buildPrompt (requestedRole sampleRequest) (replicate 200 0x41)))
     \<in> set (snd (uploadHandler (stubEnv (Inr (Some (replicate 200 0x41))) (Inr []) (Inr okReply))
      sampleRequest)) \<and>
   (\<exists>rt. jsonOnlyPrompt (buildPrompt (requestedRole sampleRequest) (replicate 200 0x41)) =
           jsonOnlyPrompt (buildPrompt (requestedRole sampleRequest) rt) \<and>
         rt \<noteq> [] \<and> 50 \<le> length (trim rt))"
proof -
  let ?e = "stubEnv (Inr (Some (replicate 200 0x41))) (Inr []) (Inr okReply)"
  have h: "uploadHandler ?e sampleRequest =
     (Response 200 (ReportBody (requestedRole sampleRequest) (originalname sampleFile) 200 okReport),
      [PdfParseCall (buffer sampleFile),
       GenerateCall (jsonOnlyPrompt (buildPrompt (requestedRole sampleRequest)
         (replicate 200 0x41)))])"
    by (simp add: handler_stub_structured [OF sample_simps(1)])
  have s: "status (fst (uploadHandler ?e sampleRequest)) = 200"
    and g: "GenerateCall (jsonOnlyPrompt (buildPrompt (requestedRole sampleRequest)
         (replicate 200 0x41))) \<in> set (snd (uploadHandler ?e sampleRequest))"
    by (simp_all add: h)
  from C5_text_sent_for_analysis_is_long_enough [of ?e sampleRequest] s g
  show ?thesis by blast
qed

text \<open>
  The status of a failed request tells the stage that failed: 400 when the AI service
  was never called, 500 with one fixed body when \<^verbatim>\<open>askGeminiForJSON\<close> threw, whatever
  the error was.
\<close>

lemma failures_by_stage:
  "(req_file req = None \<longrightarrow> fst (uploadHandler e req) = Response 400 (ErrorBody msgNoFile)) \<and>
   (filter isGenerateCall (snd (uploadHandler e req)) = [] \<longrightarrow>
      status (fst (uploadHandler e req)) = 400 \<and>
      (\<exists>m. body (fst (uploadHandler e req)) = ErrorBody m \<and>
           (m = msgNoFile \<or> m = msgNoText \<or> m = msgTooShort \<or> (\<exists>d. m = msgOcrFailed d)))) \<and>
   (\<forall>p err. GenerateCall (jsonOnlyPrompt p) \<in> set (snd (uploadHandler e req)) \<and>
            fst (askGeminiForJSON e p) = Inl err \<longrightarrow>
      fst (uploadHandler e req) = Response 500 (ErrorBody msgAiFailed)) \<and>
   (status (fst (uploadHandler e req)) = 500 \<longrightarrow>
      body (fst (uploadHandler e req)) = ErrorBody msgAiFailed \<and>
      filter isGenerateCall (snd (uploadHandler e req)) \<noteq> []) \<and>
   (status (fst (uploadHandler e req)) = 400 \<longrightarrow>
      filter isGenerateCall (snd (uploadHandler e req)) = []) \<and>
   msgAiFailed = lit ''AI analysis failed. Please try again.'' \<and>
   distinct [msgNoFile, msgNoText, msgTooShort, msgAiFailed]"
proof (intro conjI allI impI)
  assume "req_file req = None"
  then show "fst (uploadHandler e req) = Response 400 (ErrorBody msgNoFile)"
    by (simp add: uploadHandler_def)
next
  assume n: "filter isGenerateCall (snd (uploadHandler e req)) = []"
  then show "status (fst (uploadHandler e req)) = 400"
    by (cases e req rule: handler_cases) auto
  from n show "\<exists>m. body (fst (uploadHandler e req)) = ErrorBody m \<and>
           (m = msgNoFile \<or> m = msgNoText \<or> m = msgTooShort \<or> (\<exists>d. m = msgOcrFailed d))"
    by (cases e req rule: handler_cases) auto
next
  fix p err
  assume a: "GenerateCall (jsonOnlyPrompt p) \<in> set (snd (uploadHandler e req)) \<and>
            fst (askGeminiForJSON e p) = Inl err"
  then have f: "GenerateCall (jsonOnlyPrompt p)
      \<in> set (filter isGenerateCall (snd (uploadHandler e req)))"
    by simp
  show "fst (uploadHandler e req) = Response 500 (ErrorBody msgAiFailed)"
  proof (cases e req rule: handler_cases)
    case (ok f' rt tr v)
    with f have "jsonOnlyPrompt p = jsonOnlyPrompt (buildPrompt (requestedRole req) rt)"
      by simp
    then have "p = buildPrompt (requestedRole req) rt" by (rule jsonOnlyPrompt_inj)
    with a ok(5) show ?thesis by simp
  qed (use f in auto)
next
  assume s: "status (fst (uploadHandler e req)) = 500"
  then show "body (fst (uploadHandler e req)) = ErrorBody msgAiFailed"
    by (cases e req rule: handler_cases) auto
  from s show "filter isGenerateCall (snd (uploadHandler e req)) \<noteq> []"
    by (cases e req rule: handler_cases) auto
next
  assume s: "status (fst (uploadHandler e req)) = 400"
  then show "filter isGenerateCall (snd (uploadHandler e req)) = []"
    by (cases e req rule: handler_cases) auto
next
  show "msgAiFailed = lit ''AI analysis failed. Please try again.''"
    by (simp add: msgAiFailed_def)
  show "distinct [msgNoFile, msgNoText, msgTooShort, msgAiFailed]"
    by (simp add: msgNoFile_def msgNoText_def msgTooShort_def msgAiFailed_def lit_def unit_of_def)
qed

text \<open>
  No text found and text too short have each their message, on either path.
\<close>

lemma pdfExtract_trimmed: "trim (fst (pdfExtract e b)) = fst (pdfExtract e b)"
  by (simp add: pdfExtract_def trim_trim trim_Nil split: sum.splits)

lemma extraction_failure_messages:
  assumes "req_file req = Some f"
  shows
    "(fst (pdfExtract e (buffer f)) = [] \<and> recognize e (buffer f) = Inr t \<and> trim t = [] \<longrightarrow>
        fst (uploadHandler e req) = Response 400 (ErrorBody msgNoText)) \<and>
     (fst (pdfExtract e (buffer f)) = [] \<and> recognize e (buffer f) = Inr t \<and>
      trim t \<noteq> [] \<and> length (trim t) < 50 \<longrightarrow>
        fst (uploadHandler e req) = Response 400 (ErrorBody msgTooShort)) \<and>
     (fst (pdfExtract e (buffer f)) \<noteq> [] \<and> length (fst (pdfExtract e (buffer f))) < 50 \<longrightarrow>
        fst (uploadHandler e req) = Response 400 (ErrorBody msgTooShort))"
proof (intro conjI impI; elim conjE)
  assume "fst (pdfExtract e (buffer f)) = []" "recognize e (buffer f) = Inr t" "trim t = []"
  with handler_ocr [OF assms] show "fst (uploadHandler e req) = Response 400 (ErrorBody msgNoText)"
    by simp
next
  assume x: "fst (pdfExtract e (buffer f)) = []" and r: "recognize e (buffer f) = Inr t"
    and n: "trim t \<noteq> []" and l: "length (trim t) < 50"
  from n have "t \<noteq> []" by (auto simp: trim_Nil)
  with handler_ocr [OF assms x] r n l
  show "fst (uploadHandler e req) = Response 400 (ErrorBody msgTooShort)"
    by (simp add: analyseText_short)
next
  assume n: "fst (pdfExtract e (buffer f)) \<noteq> []"
    and l: "length (fst (pdfExtract e (buffer f))) < 50"
  from handler_structured [OF assms n] l
  show "fst (uploadHandler e req) = Response 400 (ErrorBody msgTooShort)"
    by (simp add: analyseText_short pdfExtract_trimmed)
qed

text \<open>
  Claim C6 says that every failure of the extraction stage (file missing, no text found,
  OCR failure, text too short) is answered with status 400 and a message of its own kind,
  and every failure of the AI stage with status 500 and one fixed body. The statuses and
  the fixed body hold (\<open>failures_by_stage\<close>), and so do the messages for a missing file,
  for no text and for short text (\<open>extraction_failure_messages\<close>). A failure of the OCR engine has no message
  of its own: \<^verbatim>\<open>extractTextFromImage\<close> has caught it, and the request is answered exactly
  as one whose OCR found no text.
\<close>

theorem C6_ocr_failure_answered_as_no_text:
  "uploadHandler (stubEnv (Inr None) (Inl (JsError (lit ''worker crashed''))) (Inr okReply))
     sampleRequest =
   uploadHandler (stubEnv (Inr None) (Inr []) (Inr okReply)) sampleRequest \<and>
   fst (uploadHandler (stubEnv (Inr None) (Inl (JsError (lit ''worker crashed''))) (Inr okReply))
     sampleRequest) = Response 400 (ErrorBody msgNoText) \<and>
   msgNoText = lit ''Could not extract text from PDF. Please upload a proper text-based resume.'' \<and>
   msgNoText \<noteq> msgOcrFailed (lit ''worker crashed'')"
proof -
  let ?raises = "stubEnv (Inr None) (Inl (JsError (lit ''worker crashed''))) (Inr okReply)"
  let ?blank = "stubEnv (Inr None) (Inr []) (Inr okReply)"
  have x: "fst (pdfExtract (stubEnv (Inr None) ocr (Inr okReply)) (buffer sampleFile)) = []" for ocr
    by (simp add: pdfExtract_def stubEnv_simps orEmpty_def trim_Nil)
  have 1: "uploadHandler ?raises sampleRequest =
     (Response 400 (ErrorBody msgNoText),
      [PdfParseCall (buffer sampleFile), OcrCall (buffer sampleFile)])"
    using handler_ocr [OF sample_simps(1) x, of "Inl (JsError (lit ''worker crashed''))"]
    by (simp add: stubEnv_simps)
  have 2: "uploadHandler ?blank sampleRequest =
     (Response 400 (ErrorBody msgNoText),
      [PdfParseCall (buffer sampleFile), OcrCall (buffer sampleFile)])"
    using handler_ocr [OF sample_simps(1) x, of "Inr []"]
    by (simp add: stubEnv_simps)
  have 3: "msgNoText \<noteq> msgOcrFailed (lit ''worker crashed'')"
    by (simp add: msgNoText_def msgOcrFailed_def lit_def unit_of_def)
  from 1 2 3 show ?thesis by (simp add: msgNoText_def)
qed

text \<open>
  Claim C7. A successful request is answered with status 200 and a body of the four fields
  \<^verbatim>\<open>targetRole\<close>, \<^verbatim>\<open>fileName\<close>, \<^verbatim>\<open>extractedChars\<close> and \<^verbatim>\<open>analysis\<close>, where
  \<^verbatim>\<open>extractedChars\<close> is the length of the extracted text and \<^verbatim>\<open>analysis\<close> is what
  \<^verbatim>\<open>askGeminiForJSON\<close> returned. When structured extraction returns 200 letters A, the
  response is 200 with \<^verbatim>\<open>extractedChars\<close> 200 and the OCR engine is never called.
\<close>

theorem C7_success_response:
  "(status (fst (uploadHandler e req)) = 200 \<longrightarrow>
      (\<exists>f rt v. req_file req = Some f \<and>
         GenerateCall (jsonOnlyPrompt (buildPrompt (requestedRole req) rt))
           \<in> set (snd (uploadHandler e req)) \<and>
         fst (askGeminiForJSON e (buildPrompt (requestedRole req) rt)) = Inr v \<and>
         fst (uploadHandler e req) =
           Response 200 (ReportBody (requestedRole req) (originalname f) (length rt) v))) \<and>
   (req_file req = Some f \<and> pdfParse e (buffer f) = Inr (Some (replicate 200 0x41)) \<and>
    fst (askGeminiForJSON e (buildPrompt (requestedRole req) (replicate 200 0x41))) = Inr v \<longrightarrow>
      fst (uploadHandler e req) =
        Response 200 (ReportBody (requestedRole req) (originalname f) 200 v) \<and>
      filter isOcrCall (snd (uploadHandler e req)) = [])"
proof (intro conjI impI; (elim conjE)?)
  assume "status (fst (uploadHandler e req)) = 200"
  then show "\<exists>f rt v. req_file req = Some f \<and>
         GenerateCall (jsonOnlyPrompt (buildPrompt (requestedRole req) rt))
           \<in> set (snd (uploadHandler e req)) \<and>
         fst (askGeminiForJSON e (buildPrompt (requestedRole req) rt)) = Inr v \<and>
         fst (uploadHandler e req) =
           Response 200 (ReportBody (requestedRole req) (originalname f) (length rt) v)"
  proof (cases e req rule: handler_cases)
    case (ok f rt tr v)
    then show ?thesis by (intro exI [of _ f] exI [of _ rt] exI [of _ v]) simp
  qed auto
next
  assume f: "req_file req = Some f"
    and p: "pdfParse e (buffer f) = Inr (Some (replicate 200 0x41))"
    and a: "fst (askGeminiForJSON e (buildPrompt (requestedRole req) (replicate 200 0x41))) = Inr v"
  have x: "fst (pdfExtract e (buffer f)) = replicate 200 0x41"
    by (simp add: pdfExtract_resolved [OF p] orEmpty_def trim_As)
  then have "fst (pdfExtract e (buffer f)) \<noteq> []" by simp
  note h = handler_structured [OF f this, unfolded x]
  have l: "analyseText e (requestedRole req) f (replicate 200 0x41) [PdfParseCall (buffer f)] =
     (Response 200 (ReportBody (requestedRole req) (originalname f) 200 v),
      [PdfParseCall (buffer f),
       GenerateCall (jsonOnlyPrompt (buildPrompt (requestedRole req) (replicate 200 0x41)))])"
    by (subst analyseText_long) (simp_all add: trim_As a)
  from h l show "fst (uploadHandler e req) =
        Response 200 (ReportBody (requestedRole req) (originalname f) 200 v)"
    by simp
  from h l show "filter isOcrCall (snd (uploadHandler e req)) = []"
    by simp
qed

theorem C7_witness:
  "req_file sampleRequest = Some sampleFile \<and>
   fst (askGeminiForJSON (stubEnv (Inr (Some (replicate 200 0x41))) (Inr []) (Inr okReply))
          (buildPrompt (requestedRole sampleRequest) (replicate 200 0x41))) = Inr okReport \<and>
   fst (uploadHandler (stubEnv (Inr (Some (replicate 200 0x41))) (Inr []) (Inr okReply))
          sampleRequest) =
     Response 200 (ReportBody (requestedRole sampleRequest) (originalname sampleFile) 200 okReport) \<and>
   filter isOcrCall
     (snd (uploadHandler (stubEnv (Inr (Some (replicate 200 0x41))) (Inr []) (Inr okReply))
        sampleRequest)) = [] \<and>
   status (fst (uploadHandler (stubEnv (Inr (Some (replicate 200 0x41))) (Inr []) (Inr okReply))
          sampleRequest)) = 200"
proof -
  let ?e = "stubEnv (Inr (Some (replicate 200 0x41))) (Inr []) (Inr okReply)"
  have a: "fst (askGeminiForJSON ?e
      (buildPrompt (requestedRole sampleRequest) (replicate 200 0x41))) = Inr okReport"
    by (simp add: askGemini_stub_ok)
  have p: "pdfParse ?e (buffer sampleFile) = Inr (Some (replicate 200 0x41))"
    by (simp add: stubEnv_simps)
  note c = C7_success_response [of ?e sampleRequest sampleFile okReport]
  from c sample_simps(1) p a
  have 1: "fst (uploadHandler ?e sampleRequest) =
     Response 200 (ReportBody (requestedRole sampleRequest) (originalname sampleFile) 200 okReport)"
    and 2: "filter isOcrCall (snd (uploadHandler ?e sampleRequest)) = []"
    by blast+
  from 1 have "status (fst (uploadHandler ?e sampleRequest)) = 200" by simp
  with sample_simps(1) a 1 2 show ?thesis by blast
qed

text \<open>
  Claim C8. The response is a function of the file bytes, the file name and the target
  role: two requests that agree on the three get the same status and the same body (and
  so the same serialised bytes) from the same deterministic services, whatever else
  differs between them.
\<close>

theorem C8_response_determined_by_request:
  assumes "map_option buffer (req_file r1) = map_option buffer (req_file r2)"
    and "map_option originalname (req_file r1) = map_option originalname (req_file r2)"
    and "body_targetRole r1 = body_targetRole r2"
  shows "uploadHandler e r1 = uploadHandler e r2"
proof -
  from assms(3) have "requestedRole r1 = requestedRole r2"
    by (simp add: requestedRole_def)
  with assms(1,2) show ?thesis by (rule handler_cong)
qed

theorem C8_witness:
  "sampleRequest \<noteq>
     sampleRequest\<lparr>req_file := Some (sampleFile\<lparr>mimetype := lit ''image/png''\<rparr>),
                   body_others := [(lit ''note'', lit ''urgent'')]\<rparr> \<and>
   uploadHandler (stubEnv (Inr (Some (replicate 200 0x41))) (Inr []) (Inr okReply)) sampleRequest =
   uploadHandler (stubEnv (Inr (Some (replicate 200 0x41))) (Inr []) (Inr okReply))
     (sampleRequest\<lparr>req_file := Some (sampleFile\<lparr>mimetype := lit ''image/png''\<rparr>),
                    body_others := [(lit ''note'', lit ''urgent'')]\<rparr>)"
proof -
  have "body_others sampleRequest \<noteq>
      body_others (sampleRequest\<lparr>req_file := Some (sampleFile\<lparr>mimetype := lit ''image/png''\<rparr>),
                   body_others := [(lit ''note'', lit ''urgent'')]\<rparr>)"
    by (simp add: sampleRequest_def)
  then have "sampleRequest \<noteq>
     sampleRequest\<lparr>req_file := Some (sampleFile\<lparr>mimetype := lit ''image/png''\<rparr>),
                   body_others := [(lit ''note'', lit ''urgent'')]\<rparr>"
    by metis
  moreover have "uploadHandler (stubEnv (Inr (Some (replicate 200 0x41))) (Inr []) (Inr okReply))
       sampleRequest =
     uploadHandler (stubEnv (Inr (Some (replicate 200 0x41))) (Inr []) (Inr okReply))
     (sampleRequest\<lparr>req_file := Some (sampleFile\<lparr>mimetype := lit ''image/png''\<rparr>),
                    body_others := [(lit ''note'', lit ''urgent'')]\<rparr>)"
    by (rule C8_response_determined_by_request) (simp_all add: sample_simps)
  ultimately show ?thesis by simp
qed

lemma trim_padded:
  assumes "isWhiteSpace a" "isWhiteSpace b" "\<not> isWhiteSpace c"
  shows "trim (a # replicate (Suc n) c @ [b]) = replicate (Suc n) c"
proof -
  have 1: "dropWhile isWhiteSpace (a # replicate (Suc n) c @ [b]) = replicate (Suc n) c @ [b]"
    using assms by simp
  have 2: "rev (replicate (Suc n) c @ [b]) = b # c # replicate n c"
    by (simp add: replicate_append_same)
  have 3: "dropWhile isWhiteSpace (b # c # replicate n c) = c # replicate n c"
    using assms by simp
  have 4: "rev (c # replicate n c) = replicate (Suc n) c"
    by (simp add: replicate_append_same)
  show ?thesis unfolding trim_def 1 2 3 4 ..
qed

text \<open>
  Claim C10. Text that comes from the OCR fallback is used as the engine returned it:
  the prompt embeds it and \<^verbatim>\<open>extractedChars\<close> counts it with its leading and trailing
  white space, trimming serving the length checks only. Text of the structured
  extractor is trimmed before both uses.
\<close>

theorem C10_ocr_text_used_untrimmed:
  assumes "req_file req = Some f"
  shows
    "let sent = (\<lambda>u.
       [0x0A] @ lit ''You are an API. Return ONLY valid JSON.'' @ [0x0A] @
       lit ''No markdown. No backticks. No extra explanation.'' @ [0x0A, 0x0A, 0x0A] @
       lit ''Analyze this resume for the target role: '' @ [0x22] @ requestedRole req @ [0x22, 0x0A, 0x0A] @
       lit ''Return JSON in EXACT shape:'' @ [0x0A] @ lit ''{'' @ [0x0A] @
       lit ''  '' @ [0x22] @ lit ''atsScore'' @ [0x22] @ lit '': number (0-100),'' @ [0x0A] @
       lit ''  '' @ [0x22] @ lit ''strengths'' @ [0x22] @ lit '': ['' @ [0x22] @ lit ''...'' @ [0x22] @ lit ''],'' @ [0x0A] @
       lit ''  '' @ [0x22] @ lit ''weakAreas'' @ [0x22] @ lit '': ['' @ [0x22] @ lit ''...'' @ [0x22] @ lit ''],'' @ [0x0A] @
       lit ''  '' @ [0x22] @ lit ''missingSkills'' @ [0x22] @ lit '': ['' @ [0x22] @ lit ''...'' @ [0x22] @ lit ''],'' @ [0x0A] @
       lit ''  '' @ [0x22] @ lit ''projectGaps'' @ [0x22] @ lit '': ['' @ [0x22] @ lit ''...'' @ [0x22] @ lit ''],'' @ [0x0A] @
       lit ''  '' @ [0x22] @ lit ''quickFixes'' @ [0x22] @ lit '': ['' @ [0x22] @ lit ''...'' @ [0x22] @ lit ''],'' @ [0x0A] @
       lit ''  '' @ [0x22] @ lit ''oneLineVerdict'' @ [0x22] @ lit '': '' @ [0x22] @ lit ''...'' @ [0x22, 0x0A] @
       lit ''}'' @ [0x0A, 0x0A] @ lit ''Rules:'' @ [0x0A] @
       lit ''- Be beginner-friendly.'' @ [0x0A] @ lit ''- Be realistic.'' @ [0x0A] @
       lit ''- Mention projects/deployment/GitHub if missing.'' @ [0x0A, 0x0A] @
       lit ''Resume Text:'' @ [0x0A, 0x22, 0x22, 0x22, 0x0A] @
       u @ [0x0A, 0x22, 0x22, 0x22, 0x0A, 0x0A])
     in
     (fst (pdfExtract e (buffer f)) = [] \<and> recognize e (buffer f) = Inr t \<and>
      50 \<le> length (trim t) \<longrightarrow>
        snd (uploadHandler e req) =
          [PdfParseCall (buffer f), OcrCall (buffer f), GenerateCall (sent t)] \<and>
        (\<forall>v. fst (askGeminiForJSON e (buildPrompt (requestedRole req) t)) = Inr v \<longrightarrow>
           fst (uploadHandler e req) =
             Response 200 (ReportBody (requestedRole req) (originalname f) (length t) v))) \<and>
     (pdfParse e (buffer f) = Inr d \<and> 50 \<le> length (trim (orEmpty d)) \<longrightarrow>
        snd (uploadHandler e req) =
          [PdfParseCall (buffer f), GenerateCall (sent (trim (orEmpty d)))] \<and>
        (\<forall>v. fst (askGeminiForJSON e (buildPrompt (requestedRole req) (trim (orEmpty d)))) = Inr v \<longrightarrow>
           fst (uploadHandler e req) =
             Response 200 (ReportBody (requestedRole req) (originalname f)
               (length (trim (orEmpty d))) v)))"
proof -
  have built:
    "(fst (pdfExtract e (buffer f)) = [] \<and> recognize e (buffer f) = Inr t \<and>
      50 \<le> length (trim t) \<longrightarrow>
        snd (uploadHandler e req) =
          [PdfParseCall (buffer f), OcrCall (buffer f),
           GenerateCall (jsonOnlyPrompt (buildPrompt (requestedRole req) t))] \<and>
        (\<forall>v. fst (askGeminiForJSON e (buildPrompt (requestedRole req) t)) = Inr v \<longrightarrow>
           fst (uploadHandler e req) =
             Response 200 (ReportBody (requestedRole req) (originalname f) (length t) v))) \<and>
     (pdfParse e (buffer f) = Inr d \<and> 50 \<le> length (trim (orEmpty d)) \<longrightarrow>
        snd (uploadHandler e req) =
          [PdfParseCall (buffer f),
           GenerateCall (jsonOnlyPrompt (buildPrompt (requestedRole req) (trim (orEmpty d))))] \<and>
        (\<forall>v. fst (askGeminiForJSON e (buildPrompt (requestedRole req) (trim (orEmpty d)))) = Inr v \<longrightarrow>
           fst (uploadHandler e req) =
             Response 200 (ReportBody (requestedRole req) (originalname f)
               (length (trim (orEmpty d))) v)))"
  proof (intro conjI impI; elim conjE)
    assume x: "fst (pdfExtract e (buffer f)) = []" and r: "recognize e (buffer f) = Inr t"
      and l: "50 \<le> length (trim t)"
    from l have ne: "t \<noteq> []" and "trim t \<noteq> []" by (auto simp: trim_Nil)
    with handler_ocr [OF assms x] r
    have h: "uploadHandler e req =
        analyseText e (requestedRole req) f t [PdfParseCall (buffer f), OcrCall (buffer f)]"
      by simp
    note h' = h [unfolded analyseText_long [OF ne l]]
    from h' show "snd (uploadHandler e req) =
            [PdfParseCall (buffer f), OcrCall (buffer f),
             GenerateCall (jsonOnlyPrompt (buildPrompt (requestedRole req) t))]"
      by simp
    from h' show "\<forall>v. fst (askGeminiForJSON e (buildPrompt (requestedRole req) t)) = Inr v \<longrightarrow>
             fst (uploadHandler e req) =
               Response 200 (ReportBody (requestedRole req) (originalname f) (length t) v)"
      by simp
  next
    assume p: "pdfParse e (buffer f) = Inr d" and l: "50 \<le> length (trim (orEmpty d))"
    let ?t = "trim (orEmpty d)"
    from l have ne: "?t \<noteq> []" by auto
    from l have len: "50 \<le> length (trim ?t)" by (simp add: trim_trim)
    from ne have "fst (pdfExtract e (buffer f)) \<noteq> []" by (simp add: pdfExtract_resolved [OF p])
    note h = handler_structured [OF assms this, unfolded pdfExtract_resolved [OF p]
        analyseText_long [OF ne len]]
    from h show "snd (uploadHandler e req) =
            [PdfParseCall (buffer f),
             GenerateCall (jsonOnlyPrompt (buildPrompt (requestedRole req) ?t))]"
      by simp
    from h show "\<forall>v. fst (askGeminiForJSON e (buildPrompt (requestedRole req) ?t)) = Inr v \<longrightarrow>
             fst (uploadHandler e req) =
               Response 200 (ReportBody (requestedRole req) (originalname f) (length ?t) v)"
      by simp
  qed
  from built show ?thesis unfolding Let_def prompt_text .
qed

theorem C10_witness:
  "length (0x20 # replicate 50 0x41 @ [0x0A] :: jsstring) = 52 \<and>
   length (trim (0x20 # replicate 50 0x41 @ [0x0A])) = 50 \<and>
   uploadHandler (stubEnv (Inr None) (Inr (0x20 # replicate 50 0x41 @ [0x0A])) (Inr okReply))
       sampleRequest =
     (Response 200 (ReportBody (requestedRole sampleRequest) (originalname sampleFile) 52 okReport),
      [PdfParseCall (buffer sampleFile), OcrCall (buffer sampleFile),
       GenerateCall (jsonOnlyPrompt (buildPrompt (requestedRole sampleRequest)
         (0x20 # replicate 50 0x41 @ [0x0A])))]) \<and>
   uploadHandler (stubEnv (Inr (Some (0x20 # replicate 50 0x41 @ [0x0A]))) (Inr []) (Inr okReply))
       sampleRequest =
     (Response 200 (ReportBody (requestedRole sampleRequest) (originalname sampleFile) 50 okReport),
      [PdfParseCall (buffer sampleFile),
       GenerateCall (jsonOnlyPrompt (buildPrompt (requestedRole sampleRequest)
         (replicate 50 0x41)))])"
proof -
  let ?t = "0x20 # replicate 50 0x41 @ [0x0A] :: jsstring"
  let ?ocr = "stubEnv (Inr None) (Inr ?t) (Inr okReply)"
  let ?pdf = "stubEnv (Inr (Some ?t)) (Inr []) (Inr okReply)"
  have tr: "trim ?t = replicate 50 0x41"
    using trim_padded [of "0x20" "0x0A" "0x41" 49] by (simp add: isWhiteSpace_def)
  have x: "fst (pdfExtract ?ocr (buffer sampleFile)) = []"
    by (simp add: pdfExtract_def stubEnv_simps orEmpty_def trim_Nil)
  have r: "recognize ?ocr (buffer sampleFile) = Inr ?t" by (simp add: stubEnv_simps)
  have p: "pdfParse ?pdf (buffer sampleFile) = Inr (Some ?t)" by (simp add: stubEnv_simps)
  have o: "orEmpty (Some ?t) = ?t" by (simp add: orEmpty_def)
  from C10_ocr_text_used_untrimmed [OF sample_simps(1), of ?ocr ?t None, unfolded Let_def prompt_text [symmetric]] x r
  have 1: "uploadHandler ?ocr sampleRequest =
     (Response 200 (ReportBody (requestedRole sampleRequest) (originalname sampleFile) 52 okReport),
      [PdfParseCall (buffer sampleFile), OcrCall (buffer sampleFile),
       GenerateCall (jsonOnlyPrompt (buildPrompt (requestedRole sampleRequest) ?t))])"
    by (simp add: tr askGemini_stub_ok prod_eq_iff)
  from C10_ocr_text_used_untrimmed [OF sample_simps(1), of ?pdf "[]" "Some ?t", unfolded Let_def prompt_text [symmetric]] p
  have 2: "uploadHandler ?pdf sampleRequest =
     (Response 200 (ReportBody (requestedRole sampleRequest) (originalname sampleFile) 50 okReport),
      [PdfParseCall (buffer sampleFile),
       GenerateCall (jsonOnlyPrompt (buildPrompt (requestedRole sampleRequest)
         (replicate 50 0x41)))])"
    by (simp add: o tr askGemini_stub_ok prod_eq_iff)
  from 1 2 tr show ?thesis by simp
qed

subsection \<open>First and last occurrence, and the slice between them\<close>

lemma indexOf_absent: "c \<notin> set s \<Longrightarrow> indexOf s c = -1"
  by (induction s) (auto simp: Let_def)

lemma indexOf_first:
  "i < length s \<Longrightarrow> s ! i = c \<Longrightarrow> (\<forall>k<i. s ! k \<noteq> c) \<Longrightarrow> indexOf s c = int i"
proof (induction s arbitrary: i)
  case Nil
  then show ?case by simp
next
  case (Cons x xs)
  show ?case
  proof (cases i)
    case 0
    with Cons.prems show ?thesis by simp
  next
    case (Suc i')
    with Cons.prems have "x \<noteq> c" by auto
    moreover from Suc Cons.prems have "indexOf xs c = int i'"
      by (intro Cons.IH) auto
    ultimately show ?thesis using Suc by (simp add: Let_def)
  qed
qed

lemma lastIndexOf_absent: "c \<notin> set s \<Longrightarrow> lastIndexOf s c = -1"
  by (simp add: lastIndexOf_def indexOf_absent)

lemma lastIndexOf_last:
  assumes "j < length s" "s ! j = c" "\<forall>k. j < k \<and> k < length s \<longrightarrow> s ! k \<noteq> c"
  shows "lastIndexOf s c = int j"
proof -
  let ?i = "length s - 1 - j"
  from assms(1) have i: "?i < length (rev s)" by simp
  from assms(1,2) have at: "rev s ! ?i = c" by (simp add: rev_nth)
  have before: "\<forall>k<?i. rev s ! k \<noteq> c"
  proof (intro allI impI)
    fix k assume k: "k < ?i"
    with assms(1) have "rev s ! k = s ! (length s - Suc k)" by (simp add: rev_nth)
    moreover from k assms(1) have "j < length s - Suc k \<and> length s - Suc k < length s" by arith
    ultimately show "rev s ! k \<noteq> c" using assms(3) by simp
  qed
  from indexOf_first [OF i at before] assms(1) show ?thesis
    by (simp add: lastIndexOf_def Let_def)
qed

lemma slice_between:
  "i < length s \<Longrightarrow> j < length s \<Longrightarrow>
   slice s (int i) (int j + 1) = take (j + 1 - i) (drop i s)"
proof -
  assume i: "i < length s" and j: "j < length s"
  have n: "nat (1 + int j) = Suc j" "nat (int j + 1) = Suc j" by simp_all
  from i j show ?thesis
    unfolding slice_def Let_def by (simp add: nat_diff_distrib' max_def n)
qed

lemma jsonParse_wrappedReply: "\<exists>err. jsonParse wrappedReply = Inl err"
proof -
  have "jsonParse wrappedReply = Inl (JsError (lit ''Unexpected token in JSON''))"
    by code_simp
  then show ?thesis ..
qed

lemma braces_wrappedReply:
  "indexOf wrappedReply 0x7B = 2" "lastIndexOf wrappedReply 0x7D = 16"
  by code_simp+

lemma slice_wrappedReply: "slice wrappedReply 2 (16 + 1) = okReply"
  by code_simp

text \<open>
  Claim C3, as amended. The decoder of the AI reply first parses the raw reply strictly
  and returns that value when the parse succeeds. When the strict parse fails, it parses
  the part of the reply from the first opening brace to the last closing brace,
  both included; for the reply \<^verbatim>\<open>  {"atsScore":10}  extra text\<close> it returns the object
  \<^verbatim>\<open>{"atsScore":10}\<close>. When the strict parse fails and the reply has no opening brace or
  no closing brace, it fails with the error \<^verbatim>\<open>Gemini did not return JSON.\<close>
\<close>

theorem C3_reply_decoder:
  assumes "generateContent e (jsonOnlyPrompt p) = Inr raw"
  shows
    "(JSON_parse e raw = Inr v \<longrightarrow> fst (askGeminiForJSON e p) = Inr v) \<and>
     (JSON_parse e raw = Inl err \<and>
      i < length raw \<and> raw ! i = 0x7B \<and> (\<forall>k<i. raw ! k \<noteq> 0x7B) \<and>
      j < length raw \<and> raw ! j = 0x7D \<and> (\<forall>k. j < k \<and> k < length raw \<longrightarrow> raw ! k \<noteq> 0x7D) \<longrightarrow>
        fst (askGeminiForJSON e p) = JSON_parse e (take (j + 1 - i) (drop i raw))) \<and>
     (JSON_parse e raw = Inl err \<and> (0x7B \<notin> set raw \<or> 0x7D \<notin> set raw) \<longrightarrow>
        fst (askGeminiForJSON e p) = Inl (JsError (lit ''Gemini did not return JSON.''))) \<and>
     (raw = lit ''  {'' @ dq @ lit ''atsScore'' @ dq @ lit '':10}  extra text'' \<and>
      JSON_parse e = jsonParse \<longrightarrow>
        fst (askGeminiForJSON e p) = Inr (JObject [(lit ''atsScore'', JNumber (lit ''10''))]))"
proof (intro conjI impI; (elim conjE)?)
  assume "JSON_parse e raw = Inr v"
  with assms show "fst (askGeminiForJSON e p) = Inr v"
    by (simp add: askGeminiForJSON_def)
next
  assume f: "JSON_parse e raw = Inl err"
    and i: "i < length raw" "raw ! i = 0x7B" "\<forall>k<i. raw ! k \<noteq> 0x7B"
    and j: "j < length raw" "raw ! j = 0x7D" "\<forall>k. j < k \<and> k < length raw \<longrightarrow> raw ! k \<noteq> 0x7D"
  have a: "indexOf raw 0x7B = int i" using i by (rule indexOf_first)
  have b: "lastIndexOf raw 0x7D = int j" using j by (rule lastIndexOf_last)
  from assms f show "fst (askGeminiForJSON e p) = JSON_parse e (take (j + 1 - i) (drop i raw))"
    by (simp add: askGeminiForJSON_def a b slice_between [OF i(1) j(1), simplified])
next
  assume f: "JSON_parse e raw = Inl err" and n: "0x7B \<notin> set raw \<or> 0x7D \<notin> set raw"
  then have "indexOf raw 0x7B = -1 \<or> lastIndexOf raw 0x7D = -1"
    by (auto simp: indexOf_absent lastIndexOf_absent)
  with assms f show "fst (askGeminiForJSON e p) = Inl (JsError (lit ''Gemini did not return JSON.''))"
    by (auto simp: askGeminiForJSON_def Let_def)
next
  assume r: "raw = lit ''  {'' @ dq @ lit ''atsScore'' @ dq @ lit '':10}  extra text''"
    and q: "JSON_parse e = jsonParse"
  from r have w: "raw = wrappedReply" by (simp add: wrappedReply_def)
  obtain err' where "jsonParse wrappedReply = Inl err'" using jsonParse_wrappedReply ..
  with assms w q have "fst (askGeminiForJSON e p) = jsonParse okReply"
    by (simp add: askGeminiForJSON_def braces_wrappedReply slice_wrappedReply [simplified])
  then show "fst (askGeminiForJSON e p) = Inr (JObject [(lit ''atsScore'', JNumber (lit ''10''))])"
    by (simp add: jsonParse_okReply okReport_def)
qed

lemma jsonParse_strays:
  "jsonParse (lit ''x{}y'') = Inl (JsError (lit ''Unexpected token in JSON''))"
  "jsonParse (lit ''{}'') = Inr (JObject [])"
  "jsonParse (lit ''oops'') = Inl (JsError (lit ''Unexpected token in JSON''))"
  by code_simp+

theorem C3_witness:
  "fst (askGeminiForJSON (stubEnv (Inr None) (Inr []) (Inr okReply)) []) = Inr okReport \<and>
   jsonParse (lit ''x{}y'') = Inl (JsError (lit ''Unexpected token in JSON'')) \<and>
   fst (askGeminiForJSON (stubEnv (Inr None) (Inr []) (Inr (lit ''x{}y''))) []) = Inr (JObject []) \<and>
   jsonParse (lit ''oops'') = Inl (JsError (lit ''Unexpected token in JSON'')) \<and>
   0x7B \<notin> set (lit ''oops'') \<and>
   fst (askGeminiForJSON (stubEnv (Inr None) (Inr []) (Inr (lit ''oops''))) []) =
     Inl (JsError (lit ''Gemini did not return JSON.'')) \<and>
   fst (askGeminiForJSON (stubEnv (Inr None) (Inr [])
          (Inr (lit ''  {'' @ dq @ lit ''atsScore'' @ dq @ lit '':10}  extra text''))) []) =
     Inr (JObject [(lit ''atsScore'', JNumber (lit ''10''))])"
proof -
  let ?env = "\<lambda>raw. stubEnv (Inr None) (Inr []) (Inr raw)"
  have g: "generateContent (?env raw) (jsonOnlyPrompt []) = Inr raw" for raw
    by (simp add: stubEnv_simps)
  have q: "JSON_parse (?env raw) = jsonParse" for raw
    by (simp add: stubEnv_simps)
  from C3_reply_decoder [OF g, of okReply okReport]
  have 1: "fst (askGeminiForJSON (?env okReply) []) = Inr okReport"
    by (simp add: q jsonParse_okReply)
  have mid: "take (2 + 1 - 1) (drop 1 (lit ''x{}y'')) = lit ''{}''"
    by (simp add: lit_def)
  have nobrace: "0x7B \<notin> set (lit ''oops'')"
    by (simp add: lit_def unit_of_def)
  from C3_reply_decoder [OF g, of "lit ''x{}y''" _ _ 1 2]
  have 2: "fst (askGeminiForJSON (?env (lit ''x{}y'')) []) = Inr (JObject [])"
    unfolding mid q jsonParse_strays
    by (simp add: lit_def unit_of_def nth_Cons' less_Suc_eq)
  from C3_reply_decoder [OF g, of "lit ''oops''"] nobrace
  have 3: "fst (askGeminiForJSON (?env (lit ''oops'')) []) =
     Inl (JsError (lit ''Gemini did not return JSON.''))"
    unfolding q jsonParse_strays by blast
  from C3_reply_decoder
    [OF g, of "lit ''  {'' @ dq @ lit ''atsScore'' @ dq @ lit '':10}  extra text''"]
  have 4: "fst (askGeminiForJSON (?env
          (lit ''  {'' @ dq @ lit ''atsScore'' @ dq @ lit '':10}  extra text'')) []) =
     Inr (JObject [(lit ''atsScore'', JNumber (lit ''10''))])"
    using q by blast
  from 1 2 3 4 nobrace jsonParse_strays show ?thesis by simp
qed

text \<open>
  Claim C3 as stated says that every reply without an opening brace fails. The reply
  \<^verbatim>\<open>10\<close> has no brace and is valid JSON: the strict parse accepts it and the decoder
  returns the number.
\<close>

theorem C3_counterexample:
  "0x7B \<notin> set (lit ''10'') \<and> 0x7D \<notin> set (lit ''10'') \<and>
   fst (askGeminiForJSON (stubEnv (Inr None) (Inr []) (Inr (lit ''10''))) []) =
     Inr (JNumber (lit ''10''))"
proof -
  have "jsonParse (lit ''10'') = Inr (JNumber (lit ''10''))" by code_simp
  then show ?thesis
    by (simp add: askGeminiForJSON_def stubEnv_simps) (simp add: lit_def unit_of_def)
qed

end
